theory Spec2Isabelle
  imports Main "HOL-Library.Sublist"
begin

section \<open>Python values\<close>

text \<open>
  Python integers are \<^typ>\<open>int\<close>, lengths and loop counters that the code never lets go
  below zero are \<^typ>\<open>nat\<close>, and a \<^verbatim>\<open>str\<close> is a \<^typ>\<open>string\<close>: a list of characters, one
  per code point, for texts whose code points are below 256.

  \<^verbatim>\<open>xs[start:stop]\<close>: a negative index counts from the end, and both indices are clamped
  to the sequence, so a slice never fails.
\<close>

definition py_slice :: "'a list \<Rightarrow> int \<Rightarrow> int \<Rightarrow> 'a list" where
  "py_slice xs start stop =
     (let n = int (length xs);
          lo = (if start < 0 then max 0 (start + n) else min start n);
          hi = (if stop < 0 then max 0 (stop + n) else min stop n)
      in take (nat (hi - lo)) (drop (nat lo) xs))"

text \<open>
  \<^verbatim>\<open>str.strip()\<close> removes leading and trailing whitespace: the characters for which
  \<^verbatim>\<open>str.isspace()\<close> holds, which below code point 256 are 9 to 13, 28 to 32, 133 and 160.
\<close>

definition py_isspace :: "char \<Rightarrow> bool" where
  "py_isspace c =
     (let n = (of_char c :: nat)
      in (9 \<le> n \<and> n \<le> 13) \<or> (28 \<le> n \<and> n \<le> 32) \<or> n = 133 \<or> n = 160)"

definition strip :: "string \<Rightarrow> string" where
  "strip s = rev (dropWhile py_isspace (rev (dropWhile py_isspace s)))"

text \<open>
  \<^verbatim>\<open>str.lower()\<close> below code point 256: the letters A to Z, and 192 to 222 without 215, move up
  by 32. No other character below 256 becomes an ASCII letter, so the substring tests of the
  code, whose keywords are ASCII, see what Python sees. \<^verbatim>\<open>"x" in s\<close> on strings is
  \<^const>\<open>sublist\<close>.
\<close>

definition py_lower_char :: "char \<Rightarrow> char" where
  "py_lower_char c =
     (let n = (of_char c :: nat)
      in if (65 \<le> n \<and> n \<le> 90) \<or> (192 \<le> n \<and> n \<le> 222 \<and> n \<noteq> 215)
         then char_of (n + 32) else c)"

definition lower :: "string \<Rightarrow> string" where
  "lower s = map py_lower_char s"

section \<open>The chunkers\<close>

text \<open>
  The chunking loop of the upload tab (\<^verbatim>\<open>app.py\<close>, lines 910 to 916):
  \<^verbatim>\<open>
  chunks = []
  start = 0
  while start < len(full_text):
      end = start + chunk_size
      chunks.append(full_text[start:end])
      start += chunk_size - overlap
  \<close>
  The tab sets \<^verbatim>\<open>chunk_size = 500\<close> and \<^verbatim>\<open>overlap = 100\<close>; they are parameters here. With
  \<^verbatim>\<open>overlap >= chunk_size\<close> the loop never ends, so its result is an option: \<^const>\<open>None\<close>
  is a loop that does not return.
\<close>

partial_function (option) upload_chunk_loop ::
  "string \<Rightarrow> int \<Rightarrow> int \<Rightarrow> string list \<Rightarrow> int \<Rightarrow> string list option" where
  "upload_chunk_loop full_text chunk_size overlap chunks start =
     (if start < int (length full_text)
      then (let end = start + chunk_size
            in upload_chunk_loop full_text chunk_size overlap
                 (chunks @ [py_slice full_text start end]) (start + (chunk_size - overlap)))
      else Some chunks)"

declare upload_chunk_loop.simps [code]

definition upload_chunks :: "string \<Rightarrow> int \<Rightarrow> int \<Rightarrow> string list option" where
  "upload_chunks full_text chunk_size overlap = upload_chunk_loop full_text chunk_size overlap [] 0"

text \<open>
  \<^verbatim>\<open>chunk_text\<close> (\<^verbatim>\<open>ingest.py\<close>, lines 57 to 66; the defaults are 500 and 100):
  \<^verbatim>\<open>
  def chunk_text(text, chunk_size=500, chunk_overlap=100):
      chunks = []
      start = 0
      while start < len(text):
          end = start + chunk_size
          chunk = text[start:end].strip()
          if chunk:
              chunks.append(chunk)
          start += chunk_size - chunk_overlap
      return chunks
  \<close>
\<close>

partial_function (option) chunk_text_loop ::
  "string \<Rightarrow> int \<Rightarrow> int \<Rightarrow> string list \<Rightarrow> int \<Rightarrow> string list option" where
  "chunk_text_loop text chunk_size chunk_overlap chunks start =
     (if start < int (length text)
      then (let end = start + chunk_size;
                chunk = strip (py_slice text start end)
            in chunk_text_loop text chunk_size chunk_overlap
                 (if chunk \<noteq> [] then chunks @ [chunk] else chunks)
                 (start + (chunk_size - chunk_overlap)))
      else Some chunks)"

declare chunk_text_loop.simps [code]

definition chunk_text :: "string \<Rightarrow> int \<Rightarrow> int \<Rightarrow> string list option" where
  "chunk_text text chunk_size chunk_overlap = chunk_text_loop text chunk_size chunk_overlap [] 0"

text \<open>
  The stitching of the specification: the first chunk, then every later chunk without its
  leading \<open>overlap\<close> characters.
\<close>

definition stitch :: "nat \<Rightarrow> 'a list list \<Rightarrow> 'a list" where
  "stitch overlap chunks =
     (case chunks of [] \<Rightarrow> [] | c # cs \<Rightarrow> c @ concat (map (drop overlap) cs))"

text \<open>
  The offsets \<open>0, step, 2 * step, ...\<close> below \<open>L\<close> (for \<open>step > 0\<close> every such multiple
  \<open>k * step\<close> has \<open>k < L\<close>), and their number, \<open>ceil(L / step)\<close>.
\<close>

definition chunk_starts :: "nat \<Rightarrow> nat \<Rightarrow> nat list" where
  "chunk_starts L step = filter (\<lambda>s. s < L) (map (\<lambda>k. k * step) [0..<L])"

definition chunk_count :: "nat \<Rightarrow> nat \<Rightarrow> nat" where
  "chunk_count L step = (L + step - 1) div step"

text \<open>
  The chunk count as the specification states it: \<open>ceil((L - overlap) / (size - overlap))\<close>
  when \<open>L > overlap\<close>, else 1 for \<open>L > 0\<close>, else 0.
\<close>

definition spec_chunk_count :: "int \<Rightarrow> int \<Rightarrow> int \<Rightarrow> int" where
  "spec_chunk_count L chunk_size overlap =
     (if L > overlap then - ((- (L - overlap)) div (chunk_size - overlap))
      else if L > 0 then 1 else 0)"

section \<open>Effects\<close>

text \<open>
  What a run does besides returning: the calls of the guarded operation, the sleeps, the
  removals of files and the messages shown, in order. An operation on the outside world is an
  \<open>action\<close>: it takes the state of the world and either raises (\<^const>\<open>Inl\<close> with
  \<^verbatim>\<open>str(e)\<close>, the failure description) or returns (\<^const>\<open>Inr\<close>), with the new state.
  Only exceptions derived from \<^verbatim>\<open>Exception\<close> are modelled.
\<close>

datatype event =
    Call
  | Upsert
  | Create
  | Sleep nat
  | Unlink string
  | St_warning string
  | St_error string
  | St_success string
  | St_answer string

type_synonym ('s, 'a) action = "'s \<Rightarrow> (string + 'a) \<times> 's"

section \<open>Retries\<close>

text \<open>
  The decorator \<^verbatim>\<open>retry_qdrant_operation\<close> (\<^verbatim>\<open>app.py\<close>, lines 140 to 166):
  \<^verbatim>\<open>
  last_error = None
  for attempt in range(max_retries):
      try:
          return func(*args, **kwargs)
      except Exception as e:
          last_error = e
          error_str = str(e).lower()
          is_retryable = ("timeout" in error_str or "handshake" in error_str or
                          "ssl" in error_str or "connection" in error_str)
          if is_retryable and attempt < max_retries - 1:
              time.sleep(delay * (attempt + 1))
              continue
          else:
              raise
  raise last_error
  \<close>
  The loop runs over the attempts still to make. \<^verbatim>\<open>raise last_error\<close> is reached only with
  \<^verbatim>\<open>max_retries = 0\<close>, where \<^verbatim>\<open>last_error\<close> is \<^verbatim>\<open>None\<close> and Python raises a
  \<^verbatim>\<open>TypeError\<close>.
\<close>

definition is_retryable :: "string \<Rightarrow> bool" where
  "is_retryable error_str =
     (sublist ''timeout'' error_str \<or> sublist ''handshake'' error_str \<or>
      sublist ''ssl'' error_str \<or> sublist ''connection'' error_str)"

definition raise_last_error :: "string option \<Rightarrow> string" where
  "raise_last_error last_error =
     (case last_error of
        None \<Rightarrow> ''exceptions must derive from BaseException''
      | Some e \<Rightarrow> e)"

fun wrapper_loop ::
  "nat \<Rightarrow> nat \<Rightarrow> ('s, 'a) action \<Rightarrow> nat list \<Rightarrow> string option \<Rightarrow> 's \<Rightarrow> event list
     \<Rightarrow> (string + 'a) \<times> 's \<times> event list" where
  "wrapper_loop max_retries delay func [] last_error s tr =
     (Inl (raise_last_error last_error), s, tr)"
| "wrapper_loop max_retries delay func (attempt # rest) last_error s tr =
     (case func s of
        (Inr v, s') \<Rightarrow> (Inr v, s', tr @ [Call])
      | (Inl e, s') \<Rightarrow>
          (let error_str = lower e
           in if is_retryable error_str \<and> int attempt < int max_retries - 1
              then wrapper_loop max_retries delay func rest (Some e) s'
                     (tr @ [Call, Sleep (delay * (attempt + 1))])
              else (Inl e, s', tr @ [Call])))"

definition retry_qdrant_operation ::
  "nat \<Rightarrow> nat \<Rightarrow> ('s, 'a) action \<Rightarrow> 's \<Rightarrow> (string + 'a) \<times> 's \<times> event list" where
  "retry_qdrant_operation max_retries delay func s =
     wrapper_loop max_retries delay func [0..<max_retries] None s []"

text \<open>
  The upsert loop of the upload tab (\<^verbatim>\<open>app.py\<close>, lines 935 to 991), with
  \<^verbatim>\<open>max_retries = 3\<close>:
  \<^verbatim>\<open>
  for attempt in range(max_retries):
      try:
          st.session_state.qdrant.upsert(collection_name=COLLECTION_NAME, points=points)
          upsert_success = True
          break
      except Exception as upsert_error:
          last_error = upsert_error
          error_str = str(upsert_error).lower()
          is_timeout = "timeout" in error_str or "handshake" in error_str or "ssl" in error_str
          is_not_found = ("not found" in error_str or "doesn't exist" in error_str
                          or "404" in error_str)
          if is_not_found:
              vector_size = get_vector_size()
              try:
                  st.session_state.qdrant.create_collection(...)
                  continue
              except Exception as create_err:
                  create_err_str = str(create_err).lower()
                  if "already exists" in create_err_str:
                      continue
                  if "timeout" in create_err_str or "handshake" in create_err_str:
                      if attempt < max_retries - 1:
                          time.sleep(2 * (attempt + 1))
                          continue
          # For timeout errors, retry with exponential backoff
          if is_timeout and attempt < max_retries - 1:
              time.sleep(2 * (attempt + 1))  # 2s, 4s, 6s
              continue
          # For other errors or last attempt, raise
          if attempt == max_retries - 1:
              raise
  if not upsert_success:
      raise last_error
  \<close>
  \<open>upsert_failure_tail\<close> is the end of the handler, from the comment
  \<^verbatim>\<open>For timeout errors\<close> on: sleep and continue, re-raise, or fall off the end of the handler
  into the next attempt.
\<close>

definition is_timeout :: "string \<Rightarrow> bool" where
  "is_timeout error_str =
     (sublist ''timeout'' error_str \<or> sublist ''handshake'' error_str \<or> sublist ''ssl'' error_str)"

definition is_not_found :: "string \<Rightarrow> bool" where
  "is_not_found error_str =
     (sublist ''not found'' error_str \<or> sublist ''doesn't exist'' error_str \<or>
      sublist ''404'' error_str)"

datatype loop_ctl = Continue "event list" | Reraise

definition upsert_failure_tail :: "bool \<Rightarrow> nat \<Rightarrow> nat \<Rightarrow> loop_ctl" where
  "upsert_failure_tail timeout_like attempt max_retries =
     (if timeout_like \<and> int attempt < int max_retries - 1
      then Continue [Sleep (2 * (attempt + 1))]
      else if int attempt = int max_retries - 1 then Reraise
      else Continue [])"

fun upsert_attempts ::
  "('s, unit) action \<Rightarrow> ('s, nat) action \<Rightarrow> (nat \<Rightarrow> ('s, unit) action) \<Rightarrow> nat \<Rightarrow> nat list
     \<Rightarrow> string option \<Rightarrow> 's \<Rightarrow> event list \<Rightarrow> (string + unit) \<times> 's \<times> event list" where
  "upsert_attempts upsert_points vector_size_of create max_retries [] last_error s tr =
     (Inl (raise_last_error last_error), s, tr)"
| "upsert_attempts upsert_points vector_size_of create max_retries (attempt # rest) last_error s tr =
     (case upsert_points s of
        (Inr _, s1) \<Rightarrow> (Inr (), s1, tr @ [Upsert])
      | (Inl upsert_error, s1) \<Rightarrow>
          (let error_str = lower upsert_error;
               tr1 = tr @ [Upsert];
               tail = (\<lambda>s' tr'.
                  case upsert_failure_tail (is_timeout error_str) attempt max_retries of
                    Continue evs \<Rightarrow>
                      upsert_attempts upsert_points vector_size_of create max_retries rest
                        (Some upsert_error) s' (tr' @ evs)
                  | Reraise \<Rightarrow> (Inl upsert_error, s', tr'))
           in if is_not_found error_str
              then (case vector_size_of s1 of
                      (Inl size_error, s2) \<Rightarrow> (Inl size_error, s2, tr1)
                    | (Inr vector_size, s2) \<Rightarrow>
                        (case create vector_size s2 of
                           (Inr _, s3) \<Rightarrow>
                             upsert_attempts upsert_points vector_size_of create max_retries rest
                               (Some upsert_error) s3 (tr1 @ [Create])
                         | (Inl create_err, s3) \<Rightarrow>
                             (let create_err_str = lower create_err;
                                  tr3 = tr1 @ [Create]
                              in if sublist ''already exists'' create_err_str
                                 then upsert_attempts upsert_points vector_size_of create
                                        max_retries rest (Some upsert_error) s3 tr3
                                 else if (sublist ''timeout'' create_err_str \<or>
                                          sublist ''handshake'' create_err_str) \<and>
                                         int attempt < int max_retries - 1
                                 then upsert_attempts upsert_points vector_size_of create
                                        max_retries rest (Some upsert_error) s3
                                        (tr3 @ [Sleep (2 * (attempt + 1))])
                                 else tail s3 tr3)))
              else tail s1 tr1))"

definition upsert_with_retry ::
  "('s, unit) action \<Rightarrow> ('s, nat) action \<Rightarrow> (nat \<Rightarrow> ('s, unit) action) \<Rightarrow> 's
     \<Rightarrow> (string + unit) \<times> 's \<times> event list" where
  "upsert_with_retry upsert_points vector_size_of create s =
     upsert_attempts upsert_points vector_size_of create 3 [0..<3] None s []"

text \<open>
  Scripted operations, to run the loops on: the world is the number of calls made so far.
\<close>

definition always_fails :: "string \<Rightarrow> (nat, 'a) action" where
  "always_fails msg calls = (Inl msg, Suc calls)"

definition fails_then_succeeds :: "nat \<Rightarrow> string \<Rightarrow> 'a \<Rightarrow> (nat, 'a) action" where
  "fails_then_succeeds n msg v calls = (if calls < n then Inl msg else Inr v, Suc calls)"

definition always_succeeds :: "'a \<Rightarrow> (nat, 'a) action" where
  "always_succeeds v calls = (Inr v, Suc calls)"

text \<open>
  The classes of failure of the specification, by substring match on the lower-case
  description: timeout, TLS handshake and SSL failures; those and connection failures; a
  missing collection.
\<close>

definition contains_any :: "string list \<Rightarrow> string \<Rightarrow> bool" where
  "contains_any keywords description = list_ex (\<lambda>w. sublist w (lower description)) keywords"

definition timeout_like :: "string \<Rightarrow> bool" where
  "timeout_like d = contains_any [''timeout'', ''handshake'', ''ssl''] d"







section \<open>The vector store and the models\<close>

text \<open>
  A point as the code builds it: an id, a vector and the payload \<^verbatim>\<open>{"text": chunk}\<close>. The
  store client and the models are outside the repository; the code uses them through the
  operations below, which are parameters here. \<^verbatim>\<open>query_points\<close> gives the payload texts of
  the hits (\<^verbatim>\<open>p.payload.get("text", "")\<close>), best first; \<^verbatim>\<open>chat_completion\<close> gives the
  fragments of the streamed answer.
\<close>

record 'v point =
  pid :: nat
  vector :: 'v
  payload_text :: string

record ('s, 'v) qdrant_client =
  get_collection :: "('s, unit) action"
  create_collection :: "nat \<Rightarrow> ('s, unit) action"
  upsert :: "'v point list \<Rightarrow> ('s, unit) action"
  query_points :: "'v \<Rightarrow> nat \<Rightarrow> ('s, string list) action"

record ('s, 'v) models =
  get_vector_size :: "('s, nat) action"
  embed :: "string \<Rightarrow> ('s, 'v) action"
  chat_completion :: "string \<Rightarrow> ('s, string list) action"

text \<open>
  \<^verbatim>\<open>ensure_collection_exists\<close> (\<^verbatim>\<open>app.py\<close>, lines 171 to 228). \<open>create_failed\<close> is
  the handler \<^verbatim>\<open>except Exception as create_error\<close> (lines 202 to 214), which also catches a
  failure of \<^verbatim>\<open>get_vector_size()\<close>. The outermost handler (lines 215 to 228) returns
  \<^verbatim>\<open>True\<close> as well; nothing reaches it here, since every call that can raise stands inside
  one of the inner handlers.
\<close>

definition create_failed :: "string \<Rightarrow> bool \<Rightarrow> 's \<Rightarrow> event list \<Rightarrow> bool \<times> 's \<times> event list" where
  "create_failed create_error silent s tr =
     (let create_error_str = lower create_error
      in if sublist ''already exists'' create_error_str \<or>
            (sublist ''collection'' create_error_str \<and> sublist ''exists'' create_error_str)
         then (True, s, tr)
         else if sublist ''timeout'' create_error_str \<or> sublist ''handshake'' create_error_str \<or>
                 sublist ''ssl'' create_error_str
         then (True, s, tr)
         else (True, s,
               if \<not> silent then tr @ [St_error (''Error ensuring collection exists: '' @ create_error)]
               else tr))"

definition ensure_collection_exists ::
  "('s, 'v) qdrant_client option \<Rightarrow> ('s, 'v) models \<Rightarrow> bool \<Rightarrow> 's \<Rightarrow> event list
     \<Rightarrow> bool \<times> 's \<times> event list" where
  "ensure_collection_exists qdrant m silent s tr =
     (case qdrant of
        None \<Rightarrow> (False, s, tr)
      | Some q \<Rightarrow>
          (case get_collection q s of
             (Inr _, s1) \<Rightarrow> (True, s1, tr)
           | (Inl check_error, s1) \<Rightarrow>
               (let error_str = lower check_error
                in if is_timeout error_str then (True, s1, tr)
                   else (case get_vector_size m s1 of
                           (Inl create_error, s2) \<Rightarrow> create_failed create_error silent s2 tr
                         | (Inr vector_size, s2) \<Rightarrow>
                             (case create_collection q vector_size s2 of
                                (Inr _, s3) \<Rightarrow> (True, s3, tr)
                              | (Inl create_error, s3) \<Rightarrow>
                                  create_failed create_error silent s3 tr)))))"

text \<open>
  \<^verbatim>\<open>sep.join(xs)\<close>, the prompt of \<^verbatim>\<open>generate_llm_answer\<close> (lines 590 to 618) and the
  function itself: a failure of the call becomes a text that starts
  \<^verbatim>\<open>Error generating answer:\<close>.
\<close>

definition nl :: string where
  "nl = [CHR 0x0A]"

fun join :: "string \<Rightarrow> string list \<Rightarrow> string" where
  "join sep [] = []"
| "join sep [x] = x"
| "join sep (x # y # ys) = x @ sep @ join sep (y # ys)"

definition llm_prompt :: "string \<Rightarrow> string \<Rightarrow> string" where
  "llm_prompt query ctx =
     nl @ ''You are an expert assistant. Use ONLY the context below to answer.'' @ nl @ nl @
     ''USER QUERY:'' @ nl @ query @ nl @ nl @
     ''CONTEXT:'' @ nl @ ctx @ nl @ nl @
     ''RULES:'' @ nl @
     ''- Only use the provided context.'' @ nl @
     ''- If context is insufficient, respond: '' @ [CHR 0x22] @
     ''Not enough information in the document.'' @ [CHR 0x22] @ nl"

definition generate_llm_answer ::
  "('s, 'v) models \<Rightarrow> string \<Rightarrow> string \<Rightarrow> 's \<Rightarrow> string \<times> 's" where
  "generate_llm_answer m query ctx s =
     (case chat_completion m (llm_prompt query ctx) s of
        (Inr fragments, s1) \<Rightarrow> (concat fragments, s1)
      | (Inl e, s1) \<Rightarrow> (''Error generating answer: '' @ e, s1))"

text \<open>
  The search tab (\<^verbatim>\<open>app.py\<close>, lines 663 to 699), once the button is pressed:
  \<^verbatim>\<open>
  if not query.strip():
      st.warning("Please enter a question!")
  else:
      try:
          if not ensure_collection_exists():
              st.warning("Collection doesn't exist. Please upload a document first.")
          else:
              qvec = embed(query).tolist()
              hits = st.session_state.qdrant.query_points(...)
              if not hits.points:
                  st.warning("No results found. Please upload a document first.")
              else:
                  ... answer = generate_llm_answer(query, context) ...
      except Exception as e:
          st.error(f"Error during search: {str(e)}")
  \<close>
  The result is the new world and the messages shown; \<open>St_answer\<close> carries the answer, which
  the tab shows under a heading and inside its markup.
\<close>

definition none_has_no_attribute :: "string \<Rightarrow> string" where
  "none_has_no_attribute name =
     [CHR 0x27] @ ''NoneType'' @ [CHR 0x27] @ '' object has no attribute '' @
     [CHR 0x27] @ name @ [CHR 0x27]"

definition search_tab ::
  "('s, 'v) qdrant_client option \<Rightarrow> ('s, 'v) models \<Rightarrow> nat \<Rightarrow> string \<Rightarrow> 's \<Rightarrow> 's \<times> event list" where
  "search_tab qdrant m max_search_results query s =
     (if query = [] then (s, [])
      else if strip query = [] then (s, [St_warning ''Please enter a question!''])
      else
        (case ensure_collection_exists qdrant m False s [] of
           (False, s1, tr1) \<Rightarrow>
             (s1, tr1 @ [St_warning ''Collection doesn't exist. Please upload a document first.''])
         | (True, s1, tr1) \<Rightarrow>
             (case embed m query s1 of
                (Inl e, s2) \<Rightarrow> (s2, tr1 @ [St_error (''Error during search: '' @ e)])
              | (Inr qvec, s2) \<Rightarrow>
                  (case (case qdrant of
                           None \<Rightarrow> (Inl (none_has_no_attribute ''query_points''), s2)
                         | Some q \<Rightarrow> query_points q qvec max_search_results s2) of
                     (Inl e, s3) \<Rightarrow> (s3, tr1 @ [St_error (''Error during search: '' @ e)])
                   | (Inr hits, s3) \<Rightarrow>
                       if hits = []
                       then (s3, tr1 @ [St_warning ''No results found. Please upload a document first.''])
                       else (case generate_llm_answer m query (join (nl @ nl) hits) s3 of
                               (answer, s4) \<Rightarrow> (s4, tr1 @ [St_answer answer]))))))"

text \<open>
  The points of the upload tab (\<^verbatim>\<open>app.py\<close>, lines 922 to 929):
  \<^verbatim>\<open>
  for i, chunk in enumerate(chunks):
      vec = embed(chunk).tolist()
      points.append({
          "id": int(np.random.randint(1_000_000_000)),
          "vector": vec,
          "payload": {"text": chunk}
      })
  \<close>
  \<^verbatim>\<open>np.random.randint\<close> draws from the generator of the process, which is outside the
  repository: \<open>randint high g\<close> is the value a call with the bound \<open>high\<close> returns when the
  generator is in the state \<open>g\<close>, and the state it leaves. The state is carried from one call
  to the next and from one ingestion to the next. \<^verbatim>\<open>store_chunks\<close> of \<^verbatim>\<open>ingest.py\<close> (lines 98
  to 115) uses \<^verbatim>\<open>id=idx\<close>, the position.
\<close>

fun build_points ::
  "(string \<Rightarrow> ('s, 'v) action) \<Rightarrow> (nat \<Rightarrow> 'g \<Rightarrow> nat \<times> 'g) \<Rightarrow> string list \<Rightarrow> 'v point list
     \<Rightarrow> 's \<Rightarrow> 'g \<Rightarrow> (string + 'v point list) \<times> 's \<times> 'g" where
  "build_points embed_fn randint [] points s g = (Inr points, s, g)"
| "build_points embed_fn randint (chunk # rest) points s g =
     (case embed_fn chunk s of
        (Inl e, s1) \<Rightarrow> (Inl e, s1, g)
      | (Inr vec, s1) \<Rightarrow>
          (case randint 1000000000 g of
             (drawn, g1) \<Rightarrow>
               build_points embed_fn randint rest
                 (points @ [\<lparr>pid = drawn, vector = vec, payload_text = chunk\<rparr>]) s1 g1))"

text \<open>
  The values \<open>n\<close> successive calls with the bound \<open>high\<close> return from the state \<open>g\<close>, and the
  state they leave.
\<close>

fun draws :: "(nat \<Rightarrow> 'g \<Rightarrow> nat \<times> 'g) \<Rightarrow> nat \<Rightarrow> 'g \<Rightarrow> nat \<Rightarrow> nat list" where
  "draws randint high g 0 = []"
| "draws randint high g (Suc n) =
     (case randint high g of (drawn, g1) \<Rightarrow> drawn # draws randint high g1 n)"

fun generator_after :: "(nat \<Rightarrow> 'g \<Rightarrow> nat \<times> 'g) \<Rightarrow> nat \<Rightarrow> 'g \<Rightarrow> nat \<Rightarrow> 'g" where
  "generator_after randint high g 0 = g"
| "generator_after randint high g (Suc n) =
     generator_after randint high (snd (randint high g)) n"

fun store_chunks_points ::
  "(string \<Rightarrow> ('s, 'v) action) \<Rightarrow> nat \<Rightarrow> string list \<Rightarrow> 'v point list \<Rightarrow> 's
     \<Rightarrow> (string + 'v point list) \<times> 's" where
  "store_chunks_points embed_fn idx [] points s = (Inr points, s)"
| "store_chunks_points embed_fn idx (chunk # rest) points s =
     (case embed_fn chunk s of
        (Inl e, s1) \<Rightarrow> (Inl e, s1)
      | (Inr vec, s1) \<Rightarrow>
          store_chunks_points embed_fn (Suc idx) rest
            (points @ [\<lparr>pid = idx, vector = vec, payload_text = chunk\<rparr>]) s1)"

definition store_chunks ::
  "('s, 'v) qdrant_client \<Rightarrow> (string \<Rightarrow> ('s, 'v) action) \<Rightarrow> string list \<Rightarrow> 's \<Rightarrow> (string + unit) \<times> 's" where
  "store_chunks client embed_fn chunks s =
     (case store_chunks_points embed_fn 0 chunks [] s of
        (Inl e, s1) \<Rightarrow> (Inl e, s1)
      | (Inr points, s1) \<Rightarrow> upsert client points s1)"

section \<open>Text extraction\<close>

text \<open>
  The parsers (\<^verbatim>\<open>PdfReader\<close>, \<^verbatim>\<open>DocxDocument\<close>, \<^verbatim>\<open>Presentation\<close>) are outside the repository.
  A staged file is what they and the file system give for it: its size, the pages of the PDF
  reader (each the result of \<^verbatim>\<open>extract_text()\<close>, possibly \<^verbatim>\<open>None\<close>), the paragraphs of the
  Word reader, the slides of the PowerPoint reader (the shapes of each, with the text of a
  shape that has one and the cells of its table, row by row), or the description of the
  failure each raises, and the text \<^verbatim>\<open>open(..., errors='ignore').read()\<close> gives. A disk maps
  paths to files.
\<close>

record shape =
  shape_text :: "string option"
  table_cells :: "string list list option"

record staged_file =
  file_size :: nat
  pdf_pages :: "string + string option list"
  docx_paragraphs :: "string + string list"
  pptx_slides :: "string + shape list list"
  text_content :: string

type_synonym disk = "string \<rightharpoonup> staged_file"

definition no_such_file :: "string \<Rightarrow> string" where
  "no_such_file file_path =
     ''[Errno 2] No such file or directory: '' @ [CHR 0x27] @ file_path @ [CHR 0x27]"

fun split_on :: "char \<Rightarrow> string \<Rightarrow> string list" where
  "split_on c [] = [[]]"
| "split_on c (x # xs) =
     (if x = c then [] # split_on c xs
      else (case split_on c xs of
              l # ls \<Rightarrow> (x # l) # ls
            | [] \<Rightarrow> [[x]]))"

text \<open>
  The \<^verbatim>\<open>try\<close> block of the PowerPoint branch (lines 538 to 567) and of the Word branch (lines
  525 to 530) of \<^verbatim>\<open>extract_text_from_file\<close>.
\<close>

definition shape_runs :: "shape \<Rightarrow> string list" where
  "shape_runs sh =
     (case shape_text sh of
        None \<Rightarrow> []
      | Some t \<Rightarrow> if strip t \<noteq> [] then [t] else []) @
     (case table_cells sh of
        None \<Rightarrow> []
      | Some rows \<Rightarrow> filter (\<lambda>cell. strip cell \<noteq> []) (concat rows))"

definition read_presentation :: "disk \<Rightarrow> string \<Rightarrow> string + (string \<times> nat)" where
  "read_presentation dsk file_path =
     (case dsk file_path of
        None \<Rightarrow> Inl (''File not found at path: '' @ file_path)
      | Some f \<Rightarrow>
          if file_size f = 0 then Inl ''PowerPoint file is empty or corrupted''
          else (case pptx_slides f of
                  Inl e \<Rightarrow> Inl e
                | Inr slides \<Rightarrow>
                    (let text_runs = concat (map shape_runs (concat slides));
                         slide_count = length slides
                     in if text_runs = [] then Inr ([], slide_count)
                        else Inr (join nl text_runs, slide_count))))"

definition read_docx :: "disk \<Rightarrow> string \<Rightarrow> string + (string \<times> nat)" where
  "read_docx dsk file_path =
     (case dsk file_path of
        None \<Rightarrow> Inl (''Package not found at '' @ [CHR 0x27] @ file_path @ [CHR 0x27])
      | Some f \<Rightarrow>
          (case docx_paragraphs f of
             Inl e \<Rightarrow> Inl e
           | Inr paragraphs \<Rightarrow>
               Inr (join nl (filter (\<lambda>p. strip p \<noteq> []) paragraphs), length paragraphs)))"

text \<open>
  \<^verbatim>\<open>extract_text_from_file\<close> (\<^verbatim>\<open>app.py\<close>, lines 509 to 585). The branch of an extension
  runs the parser first; the handlers of the Word and of the PowerPoint branch word the
  failure.
\<close>

definition extract_text_from_file :: "disk \<Rightarrow> string \<Rightarrow> string \<Rightarrow> string + (string \<times> nat)" where
  "extract_text_from_file dsk file_path file_extension0 =
     (let file_extension = lower file_extension0
      in if file_extension = ''.pdf''
         then (case dsk file_path of
                 None \<Rightarrow> Inl (no_such_file file_path)
               | Some f \<Rightarrow>
                   (case pdf_pages f of
                      Inl e \<Rightarrow> Inl e
                    | Inr pages \<Rightarrow>
                        Inr (join nl (map (\<lambda>p. case p of None \<Rightarrow> [] | Some t \<Rightarrow> t) pages),
                             length pages)))
         else if file_extension = ''.docx'' \<or> file_extension = ''.doc''
         then (case read_docx dsk file_path of
                 Inr r \<Rightarrow> Inr r
               | Inl e \<Rightarrow>
                   Inl (''Error reading Word document. For .doc files, please convert to .docx format. Error: '' @ e))
         else if file_extension = ''.pptx'' \<or> file_extension = ''.ppt''
         then (case read_presentation dsk file_path of
                 Inr r \<Rightarrow> Inr r
               | Inl error_msg \<Rightarrow>
                   if sublist ''Package not found'' error_msg \<or>
                      sublist ''not a zip file'' (lower error_msg)
                   then Inl (''Invalid PowerPoint file. The file may be corrupted, incomplete, or not actually a PowerPoint file. If downloading from SharePoint, ensure you have a direct download link. Error: '' @ error_msg)
                   else if file_extension = ''.ppt''
                   then Inl (''Error reading PowerPoint file. Legacy .ppt format is not fully supported. Please convert to .pptx format. Error: '' @ error_msg)
                   else Inl (''Error reading PowerPoint file: '' @ error_msg))
         else if file_extension = ''.txt''
         then (case dsk file_path of
                 None \<Rightarrow> Inl (no_such_file file_path)
               | Some f \<Rightarrow>
                   (let content = text_content f;
                        lines = split_on (CHR 0x0A) content
                    in Inr (content, length (filter (\<lambda>l. strip l \<noteq> []) lines))))
         else Inl (''Unsupported file format: '' @ file_extension))"

section \<open>The upload flow\<close>

text \<open>
  Upload from the computer (\<^verbatim>\<open>app.py\<close>, lines 855 to 1016). \<open>splitext_ext\<close> is
  \<^verbatim>\<open>os.path.splitext(name)[1]\<close> for a file name without directories. \<open>ingest_staged\<close>
  is the body of the \<^verbatim>\<open>try\<close> from the extraction on (lines 893 to 1008);
  \<open>upload_and_ingest\<close> stages the upload as \<^verbatim>\<open>temp_path\<close> (the name the system picks,
  followed by the extension), runs it, and on a failure runs the handler (lines 1010 to 1016):
  \<^verbatim>\<open>
  except Exception as e:
      st.error(f"Error processing document: {str(e)}")
      if 'temp_path' in locals() and temp_path:
          try:
              os.unlink(temp_path)
          except:
              pass
  \<close>
  The informational lines after the success message are left out. The messages are lists of
  bytes: the check mark of the success message, U+2705, stands as its three bytes in UTF-8
  (\<open>check_mark\<close>). The chunking with 500 and 100 always returns
  (\<open>upload_chunks_500_100_returns\<close> below). \<open>g\<close> is the state of the random generator.
\<close>

definition splitext_ext :: "string \<Rightarrow> string" where
  "splitext_ext name =
     (let stem = dropWhile (\<lambda>c. c = CHR ''.'') name;
          after_dot = rev (takeWhile (\<lambda>c. c \<noteq> CHR ''.'') (rev stem))
      in if CHR ''.'' \<in> set stem then CHR ''.'' # after_dot else [])"

definition file_type_name :: "string \<Rightarrow> string" where
  "file_type_name file_extension =
     (let ext = lower file_extension
      in if ext = ''.pdf'' then ''PDF''
         else if ext = ''.docx'' then ''Word Document''
         else if ext = ''.doc'' then ''Word Document (Legacy)''
         else if ext = ''.pptx'' then ''PowerPoint Presentation''
         else if ext = ''.ppt'' then ''PowerPoint Presentation (Legacy)''
         else if ext = ''.txt'' then ''Text File''
         else ''Document'')"

definition os_unlink :: "string \<Rightarrow> disk \<Rightarrow> (string + unit) \<times> disk" where
  "os_unlink file_path dsk =
     (case dsk file_path of
        None \<Rightarrow> (Inl (no_such_file file_path), dsk)
      | Some _ \<Rightarrow> (Inr (), dsk(file_path := None)))"

definition check_mark :: string where
  "check_mark = [CHR 0xE2, CHR 0x9C, CHR 0x85]"

definition ingest_staged ::
  "('s, 'v) qdrant_client option \<Rightarrow> ('s, 'v) models \<Rightarrow> (nat \<Rightarrow> 'g \<Rightarrow> nat \<times> 'g) \<Rightarrow> string
     \<Rightarrow> string \<Rightarrow> 's \<Rightarrow> 'g \<Rightarrow> disk \<Rightarrow> (string + unit) \<times> 's \<times> 'g \<times> disk \<times> event list" where
  "ingest_staged qdrant m randint temp_path file_extension s g dsk =
     (case extract_text_from_file dsk temp_path file_extension of
        Inl e \<Rightarrow> (Inl e, s, g, dsk, [])
      | Inr (full_text, page_count) \<Rightarrow>
          if strip full_text = []
          then (Inr (), s, g, dsk,
                [St_error (''No text could be extracted from the '' @
                           file_type_name file_extension @ ''.'')])
          else
            (case upload_chunks full_text 500 100 of
               None \<Rightarrow> (Inl ''chunking did not return'', s, g, dsk, [])
             | Some chunks \<Rightarrow>
                 (case build_points (embed m) randint chunks [] s g of
                    (Inl e, s1, g1) \<Rightarrow> (Inl e, s1, g1, dsk, [])
                  | (Inr points, s1, g1) \<Rightarrow>
                      (case ensure_collection_exists qdrant m True s1 [] of
                         (_, s2, tr2) \<Rightarrow>
                           (case upsert_with_retry
                                   (case qdrant of
                                      None \<Rightarrow> (\<lambda>w. (Inl (none_has_no_attribute ''upsert''), w))
                                    | Some q \<Rightarrow> upsert q points)
                                   (get_vector_size m)
                                   (case qdrant of
                                      None \<Rightarrow> (\<lambda>d w. (Inl (none_has_no_attribute ''create_collection''), w))
                                    | Some q \<Rightarrow> create_collection q)
                                   s2 of
                              (Inl e, s3, tr3) \<Rightarrow> (Inl e, s3, g1, dsk, tr2 @ tr3)
                            | (Inr _, s3, tr3) \<Rightarrow>
                                (case os_unlink temp_path dsk of
                                   (Inl e, dsk1) \<Rightarrow> (Inl e, s3, g1, dsk1, tr2 @ tr3)
                                 | (Inr _, dsk1) \<Rightarrow>
                                     (Inr (), s3, g1, dsk1,
                                      tr2 @ tr3 @
                                      [Unlink temp_path,
                                       St_success (check_mark @ '' '' @
                                                   file_type_name file_extension @
                                                   '' successfully ingested!'')])))))))"

definition upload_and_ingest ::
  "('s, 'v) qdrant_client option \<Rightarrow> ('s, 'v) models \<Rightarrow> (nat \<Rightarrow> 'g \<Rightarrow> nat \<times> 'g) \<Rightarrow> string
     \<Rightarrow> string \<Rightarrow> staged_file \<Rightarrow> 's \<Rightarrow> 'g \<Rightarrow> disk \<Rightarrow> 's \<times> 'g \<times> disk \<times> event list" where
  "upload_and_ingest qdrant m randint tmp_stem name body s g dsk =
     (let file_extension = splitext_ext name;
          temp_path = tmp_stem @ file_extension;
          dsk0 = dsk(temp_path \<mapsto> body)
      in case ingest_staged qdrant m randint temp_path file_extension s g dsk0 of
           (Inr _, s1, g1, dsk1, tr) \<Rightarrow> (s1, g1, dsk1, tr)
         | (Inl e, s1, g1, dsk1, tr) \<Rightarrow>
             (let tr1 = tr @ [St_error (''Error processing document: '' @ e)]
              in if temp_path \<noteq> []
                 then (case os_unlink temp_path dsk1 of
                         (Inl _, dsk2) \<Rightarrow> (s1, g1, dsk2, tr1)
                       | (Inr _, dsk2) \<Rightarrow> (s1, g1, dsk2, tr1 @ [Unlink temp_path]))
                 else (s1, g1, dsk1, tr1)))"

section \<open>A scripted store\<close>

text \<open>
  A store to run the flows on: a collection that exists or not (with its dimension), the points
  it holds, and a script of faults. Each call takes the next entry of the script: a description
  makes the call fail with it, \<^const>\<open>None\<close> or an empty script lets the call through. The embedder
  of the script gives the length of the text as a vector of dimension 1, and its random
  generator is a linear congruential one (its state is the last number it made).
\<close>

record sim_store =
  collection :: "nat option"
  stored :: "nat list point list"
  faults :: "string option list"

definition not_found_msg :: string where
  "not_found_msg = ''Not found: Collection pdf_chunks doesn't exist!''"

definition sim_call :: "(sim_store, 'a) action \<Rightarrow> (sim_store, 'a) action" where
  "sim_call normal s =
     (case faults s of
        [] \<Rightarrow> normal s
      | None # rest \<Rightarrow> normal (s\<lparr>faults := rest\<rparr>)
      | Some msg # rest \<Rightarrow> (Inl msg, s\<lparr>faults := rest\<rparr>))"

definition sim_client :: "(sim_store, nat list) qdrant_client" where
  "sim_client =
     \<lparr>get_collection = sim_call (\<lambda>s.
         if collection s = None then (Inl not_found_msg, s) else (Inr (), s)),
      create_collection = (\<lambda>d. sim_call (\<lambda>s.
         if collection s = None then (Inr (), s\<lparr>collection := Some d\<rparr>)
         else (Inl ''Collection pdf_chunks already exists!'', s))),
      upsert = (\<lambda>points. sim_call (\<lambda>s.
         if collection s = None then (Inl not_found_msg, s)
         else (Inr (), s\<lparr>stored :=
                 filter (\<lambda>p. pid p \<notin> set (map pid points)) (stored s) @ points\<rparr>))),
      query_points = (\<lambda>qvec k. sim_call (\<lambda>s.
         if collection s = None then (Inl not_found_msg, s)
         else (Inr (take k (map payload_text (stored s))), s)))\<rparr>"

definition sim_models :: "(sim_store, nat list) models" where
  "sim_models =
     \<lparr>get_vector_size = (\<lambda>s. (Inr 1, s)),
      embed = (\<lambda>t s. (Inr [length t], s)),
      chat_completion = (\<lambda>prompt s. (Inr [''Not enough information '', ''in the document.''], s))\<rparr>"

definition lcg :: "nat \<Rightarrow> nat \<Rightarrow> nat \<times> nat" where
  "lcg high g = (let g1 = (1103515245 * g + 12345) mod 2147483648 in (g1 mod high, g1))"

definition empty_store :: sim_store where
  "empty_store = \<lparr>collection = None, stored = [], faults = []\<rparr>"

text \<open>
  Staged files: a text file of three spaces, a Word document in the modern format, a
  PowerPoint file of size zero and a presentation in the modern format.
\<close>

definition blank_txt :: staged_file where
  "blank_txt =
     \<lparr>file_size = 3, pdf_pages = Inl ''EOF marker not found'',
      docx_paragraphs = Inl ''File is not a zip file'',
      pptx_slides = Inl ''Package not found'',
      text_content = ''   ''\<rparr>"

definition hello_docx :: staged_file where
  "hello_docx =
     \<lparr>file_size = 11, pdf_pages = Inl ''EOF marker not found'',
      docx_paragraphs = Inr [''Hello'', '''', ''world''],
      pptx_slides = Inl ''Package is not a presentation'',
      text_content = ''PK''\<rparr>"

definition empty_ppt :: staged_file where
  "empty_ppt =
     \<lparr>file_size = 0, pdf_pages = Inl ''Cannot read an empty file'',
      docx_paragraphs = Inl ''File is not a zip file'',
      pptx_slides = Inl ''Package not found'',
      text_content = []\<rparr>"

definition deck_pptx :: staged_file where
  "deck_pptx =
     \<lparr>file_size = 2048, pdf_pages = Inl ''EOF marker not found'',
      docx_paragraphs = Inl ''File is not a Word document'',
      pptx_slides = Inr [[\<lparr>shape_text = Some ''Roadmap'', table_cells = None\<rparr>,
                          \<lparr>shape_text = None, table_cells = Some [[''Q1'', '' ''], [''Q2'']]\<rparr>]],
      text_content = ''PK''\<rparr>"

section \<open>The chunkers: what they return\<close>

text \<open>
  A slice that starts inside or after the text and runs forward is a \<^const>\<open>take\<close> of a
  \<^const>\<open>drop\<close>; \<^const>\<open>chunk_count\<close> is the number of multiples of the step below the length
  (\<open>less_chunk_count_iff\<close>); both loops are then unfolded by induction on what is left of the
  text.
\<close>

lemma chunk_count_add_step:
  assumes "0 < step"
  shows "chunk_count (e + step) step = Suc (chunk_count e step)"
proof -
  have "e + step + step - 1 = (e + step - 1) + step" using assms by linarith
  then show ?thesis using assms by (simp only: chunk_count_def div_add_self2)
qed

lemma chunk_count_small:
  assumes "0 < d" "d \<le> step"
  shows "chunk_count d step = 1"
  unfolding chunk_count_def
proof (rule div_nat_eqI)
  show "step * 1 \<le> d + step - 1" using assms by linarith
  show "d + step - 1 < step * Suc 1" using assms by (simp only: mult_Suc_right mult_1_right)
qed

lemma chunk_count_zero: "chunk_count 0 step = 0"
  by (cases step) (simp_all add: chunk_count_def)

lemma chunk_count_Suc:
  assumes "0 < step" "s < L"
  shows "chunk_count (L - s) step = Suc (chunk_count (L - (s + step)) step)"
proof (cases "step \<le> L - s")
  case True
  then have "L - s = (L - (s + step)) + step" by linarith
  then show ?thesis using chunk_count_add_step[OF assms(1), of "L - (s + step)"] by presburger
next
  case False
  then have z: "L - (s + step) = 0" by linarith
  have "0 < L - s" "L - s \<le> step" using assms False by linarith+
  then have "chunk_count (L - s) step = 1" by (rule chunk_count_small)
  then show ?thesis unfolding z chunk_count_zero by simp
qed

lemma py_slice_forward:
  assumes "0 \<le> start" "0 \<le> len"
  shows "py_slice xs start (start + len) = take (nat len) (drop (nat start) xs)"
proof (cases "start \<le> int (length xs)")
  case True
  show ?thesis
  proof (cases "start + len \<le> int (length xs)")
    case True
    have "nat (start + len - start) = nat len" by simp
    with True \<open>start \<le> int (length xs)\<close> assms show ?thesis
      by (simp add: py_slice_def Let_def min_def)
  next
    case False
    then have "length (drop (nat start) xs) \<le> nat len" using assms by simp
    moreover have "length (drop (nat start) xs) \<le> nat (int (length xs) - start)"
      using assms by simp
    ultimately show ?thesis using False \<open>start \<le> int (length xs)\<close> assms
      by (simp add: py_slice_def Let_def min_def)
  qed
next
  case False
  with assms show ?thesis
    by (simp add: py_slice_def Let_def min_def)
qed

lemma upload_chunk_loop_unfold:
  assumes "0 < chunk_size" "0 \<le> overlap" "overlap < chunk_size"
  shows "upload_chunk_loop full_text chunk_size overlap chunks (int s) =
         Some (chunks @ map (\<lambda>k. take (nat chunk_size) (drop (s + k * nat (chunk_size - overlap)) full_text))
                           [0..<chunk_count (length full_text - s) (nat (chunk_size - overlap))])"
proof (induction "length full_text - s" arbitrary: s chunks rule: less_induct)
  case less
  let ?step = "nat (chunk_size - overlap)"
  have step: "0 < ?step" using assms by simp
  show ?case
  proof (cases "s < length full_text")
    case False
    then have "length full_text - s = 0" by simp
    with False show ?thesis
      by (subst upload_chunk_loop.simps) (simp add: chunk_count_zero)
  next
    case True
    have next_start: "int s + (chunk_size - overlap) = int (s + ?step)" using assms by simp
    have dec: "length full_text - (s + ?step) < length full_text - s" using True step by simp
    have sl: "py_slice full_text (int s) (int s + chunk_size) = take (nat chunk_size) (drop s full_text)"
      using py_slice_forward[of "int s" chunk_size full_text] assms by simp
    have cnt: "chunk_count (length full_text - s) ?step = Suc (chunk_count (length full_text - (s + ?step)) ?step)"
      using chunk_count_Suc[OF step True] .
    have "upload_chunk_loop full_text chunk_size overlap chunks (int s) =
          upload_chunk_loop full_text chunk_size overlap
             (chunks @ [take (nat chunk_size) (drop s full_text)]) (int (s + ?step))"
      using True by (subst upload_chunk_loop.simps) (simp add: Let_def sl next_start del: of_nat_add)
    also have "\<dots> = Some ((chunks @ [take (nat chunk_size) (drop s full_text)]) @
         map (\<lambda>k. take (nat chunk_size) (drop (s + ?step + k * ?step) full_text))
           [0..<chunk_count (length full_text - (s + ?step)) ?step])"
      using less[OF dec] .
    also have "\<dots> = Some (chunks @ map (\<lambda>k. take (nat chunk_size) (drop (s + k * ?step) full_text))
                           [0..<chunk_count (length full_text - s) ?step])"
      unfolding cnt by (simp add: upt_conv_Cons map_Suc_upt[symmetric] add.assoc comp_def del: upt_Suc)
    finally show ?thesis .
  qed
qed


lemma chunk_text_loop_unfold:
  assumes "0 < chunk_size" "0 \<le> overlap" "overlap < chunk_size"
  shows "chunk_text_loop full_text chunk_size overlap chunks (int s) =
         Some (chunks @ filter (\<lambda>c. c \<noteq> [])
                 (map (\<lambda>k. strip (take (nat chunk_size) (drop (s + k * nat (chunk_size - overlap)) full_text)))
                           [0..<chunk_count (length full_text - s) (nat (chunk_size - overlap))]))"
proof (induction "length full_text - s" arbitrary: s chunks rule: less_induct)
  case less
  let ?step = "nat (chunk_size - overlap)"
  let ?c = "\<lambda>s. strip (take (nat chunk_size) (drop s full_text))"
  have step: "0 < ?step" using assms by simp
  show ?case
  proof (cases "s < length full_text")
    case False
    then have "length full_text - s = 0" by simp
    with False show ?thesis
      by (subst chunk_text_loop.simps) (simp add: chunk_count_zero)
  next
    case True
    have next_start: "int s + (chunk_size - overlap) = int (s + ?step)" using assms by simp
    have dec: "length full_text - (s + ?step) < length full_text - s" using True step by simp
    have sl: "py_slice full_text (int s) (int s + chunk_size) = take (nat chunk_size) (drop s full_text)"
      using py_slice_forward[of "int s" chunk_size full_text] assms by simp
    have cnt: "chunk_count (length full_text - s) ?step = Suc (chunk_count (length full_text - (s + ?step)) ?step)"
      using chunk_count_Suc[OF step True] .
    have "chunk_text_loop full_text chunk_size overlap chunks (int s) =
          chunk_text_loop full_text chunk_size overlap
             (if ?c s \<noteq> [] then chunks @ [?c s] else chunks) (int (s + ?step))"
      using True by (subst chunk_text_loop.simps) (simp add: Let_def sl next_start del: of_nat_add)
    also have "\<dots> = Some ((if ?c s \<noteq> [] then chunks @ [?c s] else chunks) @
         filter (\<lambda>c. c \<noteq> []) (map (\<lambda>k. ?c (s + ?step + k * ?step))
           [0..<chunk_count (length full_text - (s + ?step)) ?step]))"
      using less[OF dec] .
    also have "\<dots> = Some (chunks @ filter (\<lambda>c. c \<noteq> []) (map (\<lambda>k. ?c (s + k * ?step))
                           [0..<chunk_count (length full_text - s) ?step]))"
      unfolding cnt by (simp add: upt_conv_Cons map_Suc_upt[symmetric] add.assoc comp_def del: upt_Suc)
    finally show ?thesis .
  qed
qed

lemma concat_slices:
  "concat (map (\<lambda>j. take step (drop (a + j * step) xs)) [0..<m]) = take (m * step) (drop a xs)"
proof (induction m)
  case 0
  show ?case by simp
next
  case (Suc m)
  have "take (Suc m * step) (drop a xs) = take (m * step + step) (drop a xs)"
    by (simp add: add.commute)
  also have "\<dots> = take (m * step) (drop a xs) @ take step (drop (m * step) (drop a xs))"
    by (rule take_add)
  also have "drop (m * step) (drop a xs) = drop (a + m * step) xs"
    by (simp add: add.commute)
  finally show ?case using Suc by simp
qed

lemma chunk_count_covers:
  assumes "0 < step"
  shows "L \<le> chunk_count L step * step"
proof -
  have "L + step - 1 = chunk_count L step * step + (L + step - 1) mod step"
    unfolding chunk_count_def by simp
  moreover have "(L + step - 1) mod step < step" using assms by simp
  ultimately show ?thesis using assms by linarith
qed

lemma less_chunk_count_iff:
  assumes "0 < step"
  shows "k < chunk_count L step \<longleftrightarrow> k * step < L"
proof -
  have "k < chunk_count L step \<longleftrightarrow> Suc k \<le> (L + step - 1) div step"
    by (simp add: chunk_count_def Suc_le_eq)
  also have "\<dots> \<longleftrightarrow> Suc k * step \<le> L + step - 1"
    using assms by (simp only: less_eq_div_iff_mult_less_eq)
  also have "\<dots> \<longleftrightarrow> k * step < L"
    using assms by (simp only: mult_Suc) linarith
  finally show ?thesis .
qed

lemma chunk_count_le:
  assumes "0 < step"
  shows "chunk_count L step \<le> L"
proof (rule ccontr)
  assume "\<not> chunk_count L step \<le> L"
  then have "L < chunk_count L step" by simp
  then have "L * step < L" using less_chunk_count_iff[OF assms] by simp
  moreover have "L * 1 \<le> L * step" using assms by (intro mult_le_mono2) simp
  ultimately show False by simp
qed

lemma chunk_starts_eq:
  assumes "0 < step"
  shows "chunk_starts L step = map (\<lambda>k. k * step) [0..<chunk_count L step]"
proof -
  let ?n = "chunk_count L step"
  have split: "[0..<L] = [0..<?n] @ [?n..<L]"
    using chunk_count_le[OF assms, of L] by (metis le_add_diff_inverse upt_add_eq_append zero_le)
  have "filter (\<lambda>k. k * step < L) [0..<L] = [0..<?n]"
    unfolding split filter_append
    by (simp add: less_chunk_count_iff[OF assms, symmetric] filter_empty_conv)
  then show ?thesis
    by (simp add: chunk_starts_def filter_map comp_def)
qed


lemma upload_chunks_eq:
  assumes "0 < chunk_size" "0 \<le> overlap" "overlap < chunk_size"
  shows "upload_chunks T chunk_size overlap =
         Some (map (\<lambda>k. take (nat chunk_size) (drop (k * nat (chunk_size - overlap)) T))
                 [0..<chunk_count (length T) (nat (chunk_size - overlap))])"
  using upload_chunk_loop_unfold[OF assms, of T "[]" 0] by (simp add: upload_chunks_def)

lemma chunk_text_eq:
  assumes "0 < chunk_size" "0 \<le> overlap" "overlap < chunk_size"
  shows "chunk_text T chunk_size overlap =
         Some (filter (\<lambda>c. c \<noteq> [])
                 (map (\<lambda>k. strip (take (nat chunk_size) (drop (k * nat (chunk_size - overlap)) T)))
                 [0..<chunk_count (length T) (nat (chunk_size - overlap))]))"
  using chunk_text_loop_unfold[OF assms, of T "[]" 0] by (simp add: chunk_text_def)

lemma upload_chunks_500_100_returns: "upload_chunks full_text 500 100 \<noteq> None"
  using upload_chunks_eq[of 500 100 full_text] by simp

lemma stitch_slices:
  assumes "ov < csz" "step = csz - ov" 
  shows "stitch ov (map (\<lambda>k. take csz (drop (k * step) T)) [0..<chunk_count (length T) step]) = T"
proof (cases "chunk_count (length T) step")
  case 0
  have "0 < step" using assms by simp
  from chunk_count_covers[OF this, of "length T"] 0 have "T = []" by simp
  with 0 show ?thesis by (simp add: stitch_def)
next
  case (Suc m)
  have step: "0 < step" using assms by simp
  have szeq: "csz = step + ov" using assms by simp
  have tail: "map (drop ov) (map (\<lambda>k. take csz (drop (k * step) T)) [Suc 0..<Suc m])
            = map (\<lambda>j. take step (drop (csz + j * step) T)) [0..<m]"
    by (simp add: map_Suc_upt[symmetric] comp_def drop_take szeq add.commute add.left_commute add.assoc del: upt_Suc)
  have "stitch ov (map (\<lambda>k. take csz (drop (k * step) T)) [0..<Suc m])
        = take csz T @ concat (map (drop ov) (map (\<lambda>k. take csz (drop (k * step) T)) [Suc 0..<Suc m]))"
    by (simp add: stitch_def upt_conv_Cons del: upt_Suc)
  also have "\<dots> = take csz T @ take (m * step) (drop csz T)"
    unfolding tail concat_slices ..
  also have "\<dots> = take (csz + m * step) T"
    by (simp add: take_add)
  also have "\<dots> = T"
  proof -
    have "length T \<le> Suc m * step" using chunk_count_covers[OF step, of "length T"] Suc by simp
    then have "length T \<le> csz + m * step" using szeq by simp
    then show ?thesis by simp
  qed
  finally show ?thesis using Suc by simp
qed

text \<open>
  C1 (as amended). For every text and every valid pair (\<open>0 < chunk_size\<close>,
  \<open>0 \<le> overlap < chunk_size\<close>) the upload-tab loop of \<^verbatim>\<open>app.py\<close> returns exactly the
  slices \<open>text[start:start+size]\<close> for \<open>start = 0, size-overlap, 2*(size-overlap), ...\<close>
  while \<open>start < len(text)\<close>, in that order; stitching them (every chunk after the first
  without its leading \<open>overlap\<close> characters) gives the text back; the empty text gives no
  chunk. \<^verbatim>\<open>chunk_text\<close> of \<^verbatim>\<open>ingest.py\<close> returns the same slices after \<open>strip()\<close>, without
  those that are empty once stripped.
\<close>

theorem chunker_emits_slices_and_stitches:
  assumes "0 < chunk_size" "0 \<le> overlap" "overlap < chunk_size"
  shows "upload_chunks T chunk_size overlap =
           Some (map (\<lambda>s. py_slice T (int s) (int s + chunk_size))
                   (chunk_starts (length T) (nat (chunk_size - overlap))))
       \<and> map_option (stitch (nat overlap)) (upload_chunks T chunk_size overlap) = Some T
       \<and> upload_chunks [] chunk_size overlap = Some []
       \<and> chunk_text T chunk_size overlap =
           Some (filter (\<lambda>c. c \<noteq> [])
                   (map (\<lambda>s. strip (py_slice T (int s) (int s + chunk_size)))
                      (chunk_starts (length T) (nat (chunk_size - overlap)))))"
proof -
  let ?step = "nat (chunk_size - overlap)"
  have step: "0 < ?step" using assms by simp
  have sl: "\<And>s. py_slice T (int s) (int s + chunk_size) = take (nat chunk_size) (drop s T)"
    using py_slice_forward[of _ chunk_size T] assms by simp
  have a: "upload_chunks T chunk_size overlap =
           Some (map (\<lambda>s. py_slice T (int s) (int s + chunk_size)) (chunk_starts (length T) ?step))"
    unfolding upload_chunks_eq[OF assms] chunk_starts_eq[OF step] sl by (simp add: comp_def)
  have b: "map_option (stitch (nat overlap)) (upload_chunks T chunk_size overlap) = Some T"
  proof -
    have "nat overlap < nat chunk_size" "?step = nat chunk_size - nat overlap"
      using assms by (simp_all add: nat_diff_distrib)
    then show ?thesis
      unfolding upload_chunks_eq[OF assms] by (simp add: stitch_slices)
  qed
  have c: "upload_chunks [] chunk_size overlap = Some []"
    unfolding upload_chunks_eq[OF assms] by (simp add: chunk_count_zero)
  have d: "chunk_text T chunk_size overlap =
           Some (filter (\<lambda>c. c \<noteq> [])
                   (map (\<lambda>s. strip (py_slice T (int s) (int s + chunk_size)))
                      (chunk_starts (length T) ?step)))"
    unfolding chunk_text_eq[OF assms] chunk_starts_eq[OF step] sl by (simp add: comp_def)
  from a b c d show ?thesis by blast
qed

text \<open>The theorem at the text \<open>"ab cdefg"\<close> with size 3 and overlap 1.\<close>

theorem chunker_emits_slices_and_stitches_witness:
  "(0::int) < 3 \<and> (0::int) \<le> 1 \<and> (1::int) < 3
   \<and> upload_chunks ''ab cdefg'' 3 1 = Some [''ab '', '' cd'', ''def'', ''fg'']
   \<and> map_option (stitch 1) (upload_chunks ''ab cdefg'' 3 1) = Some ''ab cdefg''
   \<and> chunk_text ''ab cdefg'' 3 1 = Some [''ab'', ''cd'', ''def'', ''fg'']"
  using chunker_emits_slices_and_stitches[of 3 1 "''ab cdefg''"]
  by (simp add: chunk_starts_def py_slice_def strip_def py_isspace_def stitch_def upt_rec)

text \<open>
  C1 as stated fails for \<^verbatim>\<open>chunk_text\<close>: on \<open>" a"\<close> with the default parameters it emits
  \<open>"a"\<close>, which is not the slice \<open>text[0:500]\<close>, and stitching does not give the text back.
\<close>

theorem chunk_text_strips_counterexample:
  "chunk_text '' a'' 500 100 = Some [''a'']
   \<and> chunk_text '' a'' 500 100 \<noteq> Some [py_slice '' a'' 0 (0 + 500)]
   \<and> map_option (stitch 100) (chunk_text '' a'' 500 100) \<noteq> Some '' a''"
  by (simp add: chunk_text_def chunk_text_loop.simps py_slice_def strip_def py_isspace_def stitch_def)

lemma chunk_text_length_le:
  assumes "0 < chunk_size" "0 \<le> overlap" "overlap < chunk_size"
  shows "\<exists>chunks. chunk_text T chunk_size overlap = Some chunks
           \<and> length chunks \<le> chunk_count (length T) (nat (chunk_size - overlap))"
proof -
  let ?n = "chunk_count (length T) (nat (chunk_size - overlap))"
  let ?xs = "map (\<lambda>k. strip (take (nat chunk_size) (drop (k * nat (chunk_size - overlap)) T))) [0..<?n]"
  have "length (filter (\<lambda>c. c \<noteq> []) ?xs) \<le> length ?xs" by (rule length_filter_le)
  then show ?thesis unfolding chunk_text_eq[OF assms] by simp
qed

lemma upload_chunks_1200:
  assumes "length T = 1200"
  shows "upload_chunks T 500 100 = Some [take 500 T, take 500 (drop 400 T), drop 800 T]"
proof -
  have n: "chunk_count 1200 400 = 3" by (simp add: chunk_count_def)
  have "[0..<3] = [0, 1, 2::nat]" by (simp add: upt_rec)
  then have "upload_chunks T 500 100 = Some [take 500 T, take 500 (drop 400 T), take 500 (drop 800 T)]"
    using upload_chunks_eq[of 500 100 T] assms n by simp
  moreover have "take 500 (drop 800 T) = drop 800 T" using assms by simp
  ultimately show ?thesis by simp
qed

text \<open>
  C2 (as amended). For a text of length \<open>L\<close> and a valid pair, the upload-tab loop returns
  \<open>ceil(L / (size - overlap))\<close> chunks (\<^const>\<open>chunk_count\<close>; none for the empty text), and
  \<^verbatim>\<open>chunk_text\<close> returns at most that many. A text of 1200 characters with size 500 and
  overlap 100 gives three chunks, at the offsets 0, 400 and 800, the last of length 400.
\<close>

theorem chunk_count_is_ceiling_of_length_over_step:
  assumes "0 < chunk_size" "0 \<le> overlap" "overlap < chunk_size"
  shows "map_option length (upload_chunks T chunk_size overlap)
           = Some (chunk_count (length T) (nat (chunk_size - overlap)))
       \<and> (\<exists>chunks. chunk_text T chunk_size overlap = Some chunks
             \<and> length chunks \<le> chunk_count (length T) (nat (chunk_size - overlap)))
       \<and> (length T = 1200 \<longrightarrow>
             chunk_starts (length T) 400 = [0, 400, 800]
             \<and> upload_chunks T 500 100 = Some [take 500 T, take 500 (drop 400 T), drop 800 T]
             \<and> length (drop 800 T) = 400)"
proof -
  have a: "map_option length (upload_chunks T chunk_size overlap)
           = Some (chunk_count (length T) (nat (chunk_size - overlap)))"
    unfolding upload_chunks_eq[OF assms] by simp
  have "chunk_starts 1200 400 = map (\<lambda>k. k * 400) [0..<chunk_count 1200 400]"
    by (rule chunk_starts_eq) simp
  also have "chunk_count 1200 400 = 3" by (simp add: chunk_count_def)
  also have "[0..<3] = [0, 1, 2::nat]" by (simp add: upt_rec)
  finally have st: "chunk_starts 1200 400 = [0, 400, 800]" by simp
  show ?thesis using a chunk_text_length_le[OF assms] upload_chunks_1200 st by simp
qed

text \<open>The theorem at a text of 1200 characters with the default parameters.\<close>

theorem chunk_count_is_ceiling_of_length_over_step_witness:
  "(0::int) < 500 \<and> (0::int) \<le> 100 \<and> (100::int) < 500
   \<and> length (replicate 1200 (CHR ''x'')) = 1200
   \<and> map_option length (upload_chunks (replicate 1200 (CHR ''x'')) 500 100) = Some 3
   \<and> upload_chunks (replicate 1200 (CHR ''x'')) 500 100
        = Some [replicate 500 (CHR ''x''), replicate 500 (CHR ''x''), replicate 400 (CHR ''x'')]"
  using chunk_count_is_ceiling_of_length_over_step[of 500 100 "replicate 1200 (CHR ''x'')"]
  by (simp add: chunk_count_def)

text \<open>
  C2 as stated fails: a text of 450 characters with size 500 and overlap 100 is cut into two
  chunks (at the offsets 0 and 400) by both chunkers, where the formula of the claim,
  \<open>ceil((L - overlap) / (size - overlap))\<close>, gives one.
\<close>

theorem chunk_count_formula_counterexample:
  "map_option length (upload_chunks (replicate 450 (CHR ''a'')) 500 100) = Some 2
   \<and> map_option length (chunk_text (replicate 450 (CHR ''a'')) 500 100) = Some 2
   \<and> spec_chunk_count 450 500 100 = 1"
  by code_simp

section \<open>Retries: the decorator and the upsert loop\<close>

text \<open>
  The decorator raises a failure it does not classify as retryable at once, backs off
  \<open>delay * attempt\<close> after one it does, and gives up at the third attempt. The upsert loop
  backs off \<open>2 * attempt\<close> seconds after a failure whose description has \<open>timeout\<close>,
  \<open>handshake\<close> or \<open>ssl\<close>; after any other failure (that is not a missing collection) it goes
  on to the next attempt without a delay.
\<close>

lemma upt_0_3: "[0..<3] = [0, 1, 2::nat]"
  by (simp add: upt_rec)

lemma wrapper_permanent_raises_at_once:
  assumes "func s = (Inl d, s1)" "\<not> is_retryable (lower d)"
  shows "retry_qdrant_operation (Suc n) delay func s = (Inl d, s1, [Call])"
  using assms by (simp add: retry_qdrant_operation_def upt_rec)

lemma wrapper_retryable_backs_off:
  assumes "func s = (Inl d, s1)" "is_retryable (lower d)"
  shows "retry_qdrant_operation 3 delay func s =
           wrapper_loop 3 delay func [1, 2] (Some d) s1 [Call, Sleep delay]"
  using assms by (simp add: retry_qdrant_operation_def upt_0_3)

lemma wrapper_three_retryable_failures:
  assumes "func s = (Inl d1, s1)" "func s1 = (Inl d2, s2)" "func s2 = (Inl d3, s3)"
    and "is_retryable (lower d1)" "is_retryable (lower d2)"
  shows "retry_qdrant_operation 3 delay func s =
           (Inl d3, s3, [Call, Sleep delay, Call, Sleep (delay * 2), Call])"
  using assms by (simp add: retry_qdrant_operation_def upt_0_3)

lemma wrapper_two_failures_then_success:
  assumes "func s = (Inl d1, s1)" "func s1 = (Inl d2, s2)" "func s2 = (Inr v, s3)"
    and "is_retryable (lower d1)" "is_retryable (lower d2)"
  shows "retry_qdrant_operation 3 delay func s =
           (Inr v, s3, [Call, Sleep delay, Call, Sleep (delay * 2), Call])"
  using assms by (simp add: retry_qdrant_operation_def upt_0_3)

lemma upsert_timeout_backs_off:
  assumes "upsert_points s = (Inl d, s1)" "is_timeout (lower d)" "\<not> is_not_found (lower d)"
  shows "upsert_with_retry upsert_points vector_size_of create s =
           upsert_attempts upsert_points vector_size_of create 3 [1, 2] (Some d) s1
             [Upsert, Sleep 2]"
  using assms by (simp add: upsert_with_retry_def upt_0_3 upsert_failure_tail_def Let_def)

lemma upsert_three_timeouts:
  assumes "upsert_points s = (Inl d1, s1)" "upsert_points s1 = (Inl d2, s2)"
    "upsert_points s2 = (Inl d3, s3)"
    and "is_timeout (lower d1)" "is_timeout (lower d2)"
    and "\<not> is_not_found (lower d1)" "\<not> is_not_found (lower d2)" "\<not> is_not_found (lower d3)"
  shows "upsert_with_retry upsert_points vector_size_of create s =
           (Inl d3, s3, [Upsert, Sleep 2, Upsert, Sleep 4, Upsert])"
  using assms by (simp add: upsert_with_retry_def upt_0_3 upsert_failure_tail_def Let_def)

lemma upsert_other_failure_is_retried:
  assumes "upsert_points s = (Inl d1, s1)" "upsert_points s1 = (Inl d2, s2)"
    "upsert_points s2 = (Inl d3, s3)"
    and "\<not> is_timeout (lower d1)" "\<not> is_timeout (lower d2)"
    and "\<not> is_not_found (lower d1)" "\<not> is_not_found (lower d2)" "\<not> is_not_found (lower d3)"
  shows "upsert_with_retry upsert_points vector_size_of create s =
           (Inl d3, s3, [Upsert, Upsert, Upsert])"
  using assms by (simp add: upsert_with_retry_def upt_0_3 upsert_failure_tail_def Let_def)

lemma upsert_two_timeouts_then_success:
  assumes "upsert_points s = (Inl d1, s1)" "upsert_points s1 = (Inl d2, s2)"
    "upsert_points s2 = (Inr v, s3)"
    and "is_timeout (lower d1)" "is_timeout (lower d2)"
    and "\<not> is_not_found (lower d1)" "\<not> is_not_found (lower d2)"
  shows "upsert_with_retry upsert_points vector_size_of create s =
           (Inr (), s3, [Upsert, Sleep 2, Upsert, Sleep 4, Upsert])"
  using assms by (simp add: upsert_with_retry_def upt_0_3 upsert_failure_tail_def Let_def)

lemma handshake_timeout_twice_then_success:
  "upsert_with_retry (fails_then_succeeds 2 ''handshake timeout'' ()) (always_succeeds 384)
       (\<lambda>d. always_succeeds ()) 0
     = (Inr (), 3, [Upsert, Sleep 2, Upsert, Sleep 4, Upsert])"
  "retry_qdrant_operation 3 2 (fails_then_succeeds 2 ''handshake timeout'' ()) 0
     = (Inr (), 3, [Call, Sleep 2, Call, Sleep 4, Call])"
  by (simp_all add: upsert_with_retry_def retry_qdrant_operation_def upt_0_3
      upsert_failure_tail_def fails_then_succeeds_def is_timeout_def is_not_found_def
      is_retryable_def Let_def lower_def py_lower_char_def sublist_Cons_right)

text \<open>
  C3 at the failing input. An upsert that fails every time with the permanent description
  \<open>"Invalid payload schema"\<close> is attempted three times by the upload-tab loop, without a
  delay, before the failure is raised; the claim, and the decorator
  \<^verbatim>\<open>retry_qdrant_operation\<close> on the same operation, raise at the first attempt.
\<close>

theorem upsert_loop_retries_permanent_failure:
  "upsert_with_retry (always_fails ''Invalid payload schema'') (always_succeeds 384)
       (\<lambda>d. always_succeeds ()) 0
     = (Inl ''Invalid payload schema'', 3, [Upsert, Upsert, Upsert])
   \<and> retry_qdrant_operation 3 2 (always_fails ''Invalid payload schema'' :: (nat, unit) action) 0
     = (Inl ''Invalid payload schema'', 1, [Call])"
  by (simp add: upsert_with_retry_def retry_qdrant_operation_def upt_0_3 upsert_failure_tail_def
      always_fails_def always_succeeds_def is_timeout_def is_not_found_def is_retryable_def Let_def
      lower_def py_lower_char_def sublist_Cons_right)
















section \<open>The collection check and the search tab\<close>

lemma create_failed_True: "fst (create_failed create_error silent s tr) = True"
  by (simp add: create_failed_def Let_def)

lemma ensure_collection_exists_Some:
  "fst (ensure_collection_exists (Some q) m silent s tr) = True"
  by (simp add: ensure_collection_exists_def Let_def create_failed_True
      split: prod.splits sum.splits)

text \<open>
  C10. \<^verbatim>\<open>ensure_collection_exists\<close> returns on every path, and what it returns is whether
  the client handle is there: \<^verbatim>\<open>False\<close> without a client, \<^verbatim>\<open>True\<close> with one, whatever the
  store answers. On the scripted store, which has no collection: a check that times out, a
  creation that fails with \<open>already exists\<close> and a creation that fails with \<open>Forbidden\<close> all
  give \<^verbatim>\<open>True\<close>, and the store still has no collection afterwards.
\<close>

theorem ensure_collection_exists_true_unless_no_client:
  "fst (ensure_collection_exists qdrant m silent s tr) = (qdrant \<noteq> None)
   \<and> ensure_collection_exists None m silent s tr = (False, s, tr)
   \<and> ensure_collection_exists (Some sim_client) sim_models False
         (empty_store\<lparr>faults := [Some ''Read timeout'']\<rparr>) []
       = (True, empty_store, [])
   \<and> ensure_collection_exists (Some sim_client) sim_models False
         (empty_store\<lparr>faults := [None, Some ''Collection pdf_chunks already exists!'']\<rparr>) []
       = (True, empty_store, [])
   \<and> ensure_collection_exists (Some sim_client) sim_models False
         (empty_store\<lparr>faults := [None, Some ''Forbidden'']\<rparr>) []
       = (True, empty_store, [St_error ''Error ensuring collection exists: Forbidden''])"
proof -
  have a: "fst (ensure_collection_exists qdrant m silent s tr) = (qdrant \<noteq> None)"
    by (cases qdrant) (simp_all add: ensure_collection_exists_Some, simp add: ensure_collection_exists_def)
  have b: "ensure_collection_exists None m silent s tr = (False, s, tr)"
    by (simp add: ensure_collection_exists_def)
  have c: "ensure_collection_exists (Some sim_client) sim_models False
         (empty_store\<lparr>faults := [Some ''Read timeout'']\<rparr>) []
       = (True, empty_store, [])"
    by (simp add: ensure_collection_exists_def sim_client_def sim_models_def sim_call_def
        empty_store_def is_timeout_def lower_def py_lower_char_def sublist_Cons_right Let_def)
  have d: "ensure_collection_exists (Some sim_client) sim_models False
         (empty_store\<lparr>faults := [None, Some ''Collection pdf_chunks already exists!'']\<rparr>) []
       = (True, empty_store, [])"
    by (simp add: ensure_collection_exists_def sim_client_def sim_models_def sim_call_def
        empty_store_def is_timeout_def lower_def py_lower_char_def sublist_Cons_right Let_def
        not_found_msg_def create_failed_def)
  have e: "ensure_collection_exists (Some sim_client) sim_models False
         (empty_store\<lparr>faults := [None, Some ''Forbidden'']\<rparr>) []
       = (True, empty_store, [St_error ''Error ensuring collection exists: Forbidden''])"
    by (simp add: ensure_collection_exists_def sim_client_def sim_models_def sim_call_def
        empty_store_def is_timeout_def lower_def py_lower_char_def sublist_Cons_right Let_def
        not_found_msg_def create_failed_def)
  from a b c d e show ?thesis by blast
qed


text \<open>
  With a client the search tab therefore never takes the branch of the missing collection.
\<close>

lemma create_failed_events:
  "create_failed create_error silent s tr = (b, s1, tr1) \<Longrightarrow>
     b \<and> (tr1 = tr \<or> tr1 = tr @ [St_error (''Error ensuring collection exists: '' @ create_error)])"
  by (auto simp: create_failed_def Let_def split: if_splits)

lemma ensure_collection_exists_events:
  assumes "ensure_collection_exists (Some q) m silent s [] = (b, s1, tr1)"
  shows "b \<and> (tr1 = [] \<or> (\<exists>e. tr1 = [St_error e]))"
  using assms
  by (auto simp: ensure_collection_exists_def Let_def
      split: prod.splits sum.splits if_splits dest!: create_failed_events)

lemma search_tab_never_says_collection_missing:
  "St_warning ''Collection doesn't exist. Please upload a document first.''
     \<notin> set (snd (search_tab (Some q) m k query s))"
proof -
  obtain b s1 tr1 where e: "ensure_collection_exists (Some q) m False s [] = (b, s1, tr1)"
    by (cases "ensure_collection_exists (Some q) m False s []") auto
  from ensure_collection_exists_events[OF e] have b and tr: "tr1 = [] \<or> (\<exists>e. tr1 = [St_error e])"
    by auto
  from tr have no: "St_warning ''Collection doesn't exist. Please upload a document first.'' \<notin> set tr1"
    by auto
  show ?thesis
    using e \<open>b\<close> no
    by (simp add: search_tab_def split: prod.splits sum.splits)
qed

text \<open>
  C6 at the failing input. A query on a store whose collection was never created does not get
  the message of the missing collection: the check creates the collection and the tab reports
  that there are no results; when the creation fails (\<open>Forbidden\<close>), the tab reports the
  error of the creation and the error of the search.
\<close>

theorem search_on_missing_collection_reports_no_results:
  "search_tab (Some sim_client) sim_models 5 ''what is stored?'' empty_store
     = (\<lparr>collection = Some 1, stored = [], faults = []\<rparr>,
        [St_warning ''No results found. Please upload a document first.''])
   \<and> search_tab (Some sim_client) sim_models 5 ''what is stored?''
         (empty_store\<lparr>faults := [None, Some ''Forbidden'']\<rparr>)
     = (empty_store,
        [St_error ''Error ensuring collection exists: Forbidden'',
         St_error (''Error during search: '' @ not_found_msg)])"
  by (simp add: search_tab_def ensure_collection_exists_def sim_client_def sim_models_def
      sim_call_def empty_store_def is_timeout_def lower_def py_lower_char_def
      sublist_Cons_right Let_def not_found_msg_def create_failed_def strip_def py_isspace_def)

section \<open>Point ids\<close>

lemma build_points_draws:
  "build_points embed_fn randint chunks points s g = (Inr ps, s1, g1) \<Longrightarrow>
     map pid ps = map pid points @ draws randint 1000000000 g (length chunks)
     \<and> map payload_text ps = map payload_text points @ chunks
     \<and> g1 = generator_after randint 1000000000 g (length chunks)"
proof (induction chunks arbitrary: points s g)
  case Nil
  then show ?case by simp
next
  case (Cons chunk rest)
  show ?case
  proof (cases "embed_fn chunk s")
    case (Pair r s0)
    show ?thesis
    proof (cases r)
      case (Inl e)
      with Pair Cons.prems show ?thesis by simp
    next
      case (Inr vec)
      obtain drawn g0 where d: "randint 1000000000 g = (drawn, g0)"
        by (cases "randint 1000000000 g")
      with Inr Pair Cons.prems
      have "build_points embed_fn randint rest
              (points @ [\<lparr>pid = drawn, vector = vec, payload_text = chunk\<rparr>]) s0 g0
            = (Inr ps, s1, g1)"
        by simp
      from Cons.IH[OF this] d show ?thesis by simp
    qed
  qed
qed

lemma draws_append:
  "draws randint high g (m + n) =
     draws randint high g m @ draws randint high (generator_after randint high g m) n"
  by (induction m arbitrary: g) (simp_all split: prod.splits)

lemma draws_bounded:
  assumes "\<forall>high g'. 0 < high \<longrightarrow> fst (randint high g') < high" and "0 < high"
  shows "\<forall>x \<in> set (draws randint high g n). x < high"
proof (induction n arbitrary: g)
  case 0
  show ?case by simp
next
  case (Suc n)
  obtain drawn g0 where d: "randint high g = (drawn, g0)" by (cases "randint high g")
  with assms have "drawn < high" by (metis fst_conv)
  with d Suc show ?case by simp
qed

lemma store_chunks_points_ids:
  "store_chunks_points embed_fn idx chunks points s = (Inr ps, s1) \<Longrightarrow>
     map pid ps = map pid points @ [idx..<idx + length chunks]
     \<and> map payload_text ps = map payload_text points @ chunks"
proof (induction chunks arbitrary: idx points s)
  case Nil
  then show ?case by simp
next
  case (Cons chunk rest)
  show ?case
  proof (cases "embed_fn chunk s")
    case (Pair r s0)
    show ?thesis
    proof (cases r)
      case (Inl e)
      with Pair Cons.prems show ?thesis by simp
    next
      case (Inr vec)
      with Pair Cons.prems
      have "store_chunks_points embed_fn (Suc idx) rest
              (points @ [\<lparr>pid = idx, vector = vec, payload_text = chunk\<rparr>]) s0 = (Inr ps, s1)"
        by simp
      from Cons.IH[OF this]
      have "map pid ps = (map pid points @ [idx]) @ [Suc idx..<Suc idx + length rest]"
        and "map payload_text ps = (map payload_text points @ [chunk]) @ rest"
        by simp_all
      moreover have "[idx..<idx + length (chunk # rest)] = idx # [Suc idx..<Suc idx + length rest]"
        by (subst upt_rec) simp
      ultimately show ?thesis by simp
    qed
  qed
qed

text \<open>
  C7 (as amended). The ids of the points the upload tab builds are the values successive
  calls of \<^verbatim>\<open>np.random.randint(1_000_000_000)\<close> return, one call per chunk in order, from the
  state the generator is in, and the generator is left in the state after these calls. So the
  ids lie below \<open>10^9\<close> when the generator keeps to the bound it is given; a second ingestion
  of the same chunks gets the next draws, not the same ones; and two ingestions of the same
  chunks whose draws differ have different ids, although the positions are the same. The ids
  \<^verbatim>\<open>store_chunks\<close> of \<^verbatim>\<open>ingest.py\<close> builds are the positions \<open>0, 1, ...\<close> of the chunks.
\<close>

theorem upload_point_ids_are_the_random_draws:
  "(build_points embed_fn randint chunks [] s g = (Inr ps, s1, g1) \<longrightarrow>
      map pid ps = draws randint 1000000000 g (length chunks)
      \<and> map payload_text ps = chunks
      \<and> g1 = generator_after randint 1000000000 g (length chunks)
      \<and> ((\<forall>high g'. 0 < high \<longrightarrow> fst (randint high g') < high) \<longrightarrow>
           (\<forall>p \<in> set ps. pid p < 1000000000))
      \<and> (build_points embed_fn randint chunks [] s1 g1 = (Inr ps2, s2, g2) \<longrightarrow>
           map pid ps @ map pid ps2
             = draws randint 1000000000 g (length chunks + length chunks))
      \<and> (build_points embed_fn randint chunks [] s3 g3 = (Inr ps4, s4, g4)
           \<and> draws randint 1000000000 g (length chunks)
               \<noteq> draws randint 1000000000 g3 (length chunks) \<longrightarrow>
           map pid ps \<noteq> map pid ps4))
   \<and> (store_chunks_points embed_fn 0 chunks [] s = (Inr ps', s5) \<longrightarrow>
      map pid ps' = [0..<length chunks] \<and> map payload_text ps' = chunks)"
proof (intro conjI impI)
  assume h: "build_points embed_fn randint chunks [] s g = (Inr ps, s1, g1)"
  from build_points_draws[OF h]
  show ids: "map pid ps = draws randint 1000000000 g (length chunks)"
    and "map payload_text ps = chunks"
    and g1: "g1 = generator_after randint 1000000000 g (length chunks)"
    by simp_all
  {
    assume r: "\<forall>high g'. 0 < high \<longrightarrow> fst (randint high g') < high"
    show "\<forall>p \<in> set ps. pid p < 1000000000"
    proof
      fix p assume "p \<in> set ps"
      then have "pid p \<in> set (map pid ps)" by simp
      then have "pid p \<in> set (draws randint 1000000000 g (length chunks))" using ids by simp
      then show "pid p < 1000000000"
        using draws_bounded[OF r, of 1000000000 g "length chunks"] by simp
    qed
  }
  {
    assume h2: "build_points embed_fn randint chunks [] s1 g1 = (Inr ps2, s2, g2)"
    from build_points_draws[OF h2]
    have "map pid ps2 = draws randint 1000000000 g1 (length chunks)" by simp
    with ids g1
    show "map pid ps @ map pid ps2 = draws randint 1000000000 g (length chunks + length chunks)"
      by (simp add: draws_append)
  }
  {
    assume h3: "build_points embed_fn randint chunks [] s3 g3 = (Inr ps4, s4, g4)
           \<and> draws randint 1000000000 g (length chunks)
               \<noteq> draws randint 1000000000 g3 (length chunks)"
    then have "build_points embed_fn randint chunks [] s3 g3 = (Inr ps4, s4, g4)" by simp
    from build_points_draws[OF this]
    have "map pid ps4 = draws randint 1000000000 g3 (length chunks)" by simp
    with ids h3 show "map pid ps \<noteq> map pid ps4" by simp
  }
next
  assume h: "store_chunks_points embed_fn 0 chunks [] s = (Inr ps', s5)"
  from store_chunks_points_ids[OF h]
  show "map pid ps' = [0..<length chunks]" and "map payload_text ps' = chunks"
    by simp_all
qed

text \<open>
  The theorem at the chunks \<open>"ab"\<close> and \<open>"cde"\<close>, ingested twice in a row with the linear
  congruential generator started at 42.
\<close>

theorem upload_point_ids_are_the_random_draws_witness:
  "build_points (embed sim_models) lcg [''ab'', ''cde''] [] empty_store 42
     = (Inr [\<lparr>pid = 250496027, vector = [2], payload_text = ''ab''\<rparr>,
             \<lparr>pid = 116302264, vector = [3], payload_text = ''cde''\<rparr>],
        empty_store, 1116302264)
   \<and> build_points (embed sim_models) lcg [''ab'', ''cde''] [] empty_store 1116302264
     = (Inr [\<lparr>pid = 676753, vector = [2], payload_text = ''ab''\<rparr>,
             \<lparr>pid = 668674806, vector = [3], payload_text = ''cde''\<rparr>],
        empty_store, 1668674806)
   \<and> draws lcg 1000000000 42 (length [''ab'', ''cde'']) = [250496027, 116302264]
   \<and> generator_after lcg 1000000000 42 (length [''ab'', ''cde'']) = 1116302264
   \<and> draws lcg 1000000000 42 (length [''ab'', ''cde''] + length [''ab'', ''cde''])
       = [250496027, 116302264, 676753, 668674806]
   \<and> list_all (\<lambda>p. pid p < 1000000000)
         [\<lparr>pid = 250496027, vector = [2::nat], payload_text = ''ab''\<rparr>,
          \<lparr>pid = 116302264, vector = [3], payload_text = ''cde''\<rparr>]
   \<and> map pid [\<lparr>pid = 250496027, vector = [2::nat], payload_text = ''ab''\<rparr>,
               \<lparr>pid = 116302264, vector = [3], payload_text = ''cde''\<rparr>]
       \<noteq> map pid [\<lparr>pid = 676753, vector = [2::nat], payload_text = ''ab''\<rparr>,
                  \<lparr>pid = 668674806, vector = [3], payload_text = ''cde''\<rparr>]
   \<and> store_chunks_points (embed sim_models) 0 [''ab'', ''cde''] [] empty_store
     = (Inr [\<lparr>pid = 0, vector = [2], payload_text = ''ab''\<rparr>,
             \<lparr>pid = 1, vector = [3], payload_text = ''cde''\<rparr>], empty_store)
   \<and> map pid [\<lparr>pid = 0, vector = [2::nat], payload_text = ''ab''\<rparr>,
               \<lparr>pid = 1, vector = [3], payload_text = ''cde''\<rparr>]
       = [0..<length [''ab'', ''cde'']]"
proof -
  have b1: "build_points (embed sim_models) lcg [''ab'', ''cde''] [] empty_store 42
     = (Inr [\<lparr>pid = 250496027, vector = [2], payload_text = ''ab''\<rparr>,
             \<lparr>pid = 116302264, vector = [3], payload_text = ''cde''\<rparr>],
        empty_store, 1116302264)"
    by (simp add: lcg_def sim_models_def Let_def)
  have b2: "build_points (embed sim_models) lcg [''ab'', ''cde''] [] empty_store 1116302264
     = (Inr [\<lparr>pid = 676753, vector = [2], payload_text = ''ab''\<rparr>,
             \<lparr>pid = 668674806, vector = [3], payload_text = ''cde''\<rparr>],
        empty_store, 1668674806)"
    by (simp add: lcg_def sim_models_def Let_def)
  have c: "store_chunks_points (embed sim_models) 0 [''ab'', ''cde''] [] empty_store
     = (Inr [\<lparr>pid = 0, vector = [2], payload_text = ''ab''\<rparr>,
             \<lparr>pid = 1, vector = [3], payload_text = ''cde''\<rparr>], empty_store)"
    by (simp add: sim_models_def)
  have r: "\<forall>high g'. 0 < high \<longrightarrow> fst (lcg high g') < high"
    by (simp add: lcg_def Let_def)
  have n: "[250496027, 116302264] \<noteq> [676753, 668674806::nat]" by simp
  from upload_point_ids_are_the_random_draws[where embed_fn = "embed sim_models"
      and randint = lcg and chunks = "[''ab'', ''cde'']" and s = empty_store and g = 42
      and ps = "[\<lparr>pid = 250496027, vector = [2], payload_text = ''ab''\<rparr>,
                 \<lparr>pid = 116302264, vector = [3], payload_text = ''cde''\<rparr>]"
      and ?s1.0 = empty_store and ?g1.0 = 1116302264
      and ?ps2.0 = "[\<lparr>pid = 676753, vector = [2], payload_text = ''ab''\<rparr>,
                     \<lparr>pid = 668674806, vector = [3], payload_text = ''cde''\<rparr>]"
      and ?s2.0 = empty_store and ?g2.0 = 1668674806
      and ?s3.0 = empty_store and ?g3.0 = 1116302264
      and ?ps4.0 = "[\<lparr>pid = 676753, vector = [2], payload_text = ''ab''\<rparr>,
                     \<lparr>pid = 668674806, vector = [3], payload_text = ''cde''\<rparr>]"
      and ?s4.0 = empty_store and ?g4.0 = 1668674806
      and ps' = "[\<lparr>pid = 0, vector = [2], payload_text = ''ab''\<rparr>,
                  \<lparr>pid = 1, vector = [3], payload_text = ''cde''\<rparr>]"
      and ?s5.0 = empty_store] b1 b2 c r n
  show ?thesis by simp
qed

text \<open>
  C7 as stated fails on \<^verbatim>\<open>store_chunks\<close>: the ids of two chunks are 0 and 1, their positions,
  in every run and whatever the store holds.
\<close>

theorem store_chunks_ids_are_positions_counterexample:
  "store_chunks_points (embed sim_models) 0 [''ab'', ''cde''] [] empty_store
     = (Inr [\<lparr>pid = 0, vector = [2], payload_text = ''ab''\<rparr>,
             \<lparr>pid = 1, vector = [3], payload_text = ''cde''\<rparr>], empty_store)
   \<and> store_chunks_points (embed sim_models) 0 [''ab'', ''cde''] []
        (empty_store\<lparr>collection := Some 1\<rparr>)
     = (Inr [\<lparr>pid = 0, vector = [2], payload_text = ''ab''\<rparr>,
             \<lparr>pid = 1, vector = [3], payload_text = ''cde''\<rparr>],
        empty_store\<lparr>collection := Some 1\<rparr>)"
  by (simp add: sim_models_def)


section \<open>Legacy extensions\<close>

lemma extract_doc:
  assumes "lower file_extension = ''.doc''"
  shows "extract_text_from_file dsk file_path file_extension =
           (case read_docx dsk file_path of
              Inr r \<Rightarrow> Inr r
            | Inl e \<Rightarrow> Inl (''Error reading Word document. For .doc files, please convert to .docx format. Error: '' @ e))"
  using assms by (simp add: extract_text_from_file_def Let_def split: sum.splits)

lemma extract_ppt:
  assumes "lower file_extension = ''.ppt''"
  shows "extract_text_from_file dsk file_path file_extension =
           (case read_presentation dsk file_path of
              Inr r \<Rightarrow> Inr r
            | Inl error_msg \<Rightarrow>
                if sublist ''Package not found'' error_msg \<or> sublist ''not a zip file'' (lower error_msg)
                then Inl (''Invalid PowerPoint file. The file may be corrupted, incomplete, or not actually a PowerPoint file. If downloading from SharePoint, ensure you have a direct download link. Error: '' @ error_msg)
                else Inl (''Error reading PowerPoint file. Legacy .ppt format is not fully supported. Please convert to .pptx format. Error: '' @ error_msg))"
  using assms by (simp add: extract_text_from_file_def Let_def split: sum.splits)

text \<open>
  C8 (as amended). For a document with the extension \<open>.doc\<close> or \<open>.ppt\<close> (in any case) the
  extraction first runs the parser of the modern format. When the parser accepts the file,
  the text is returned. When it fails, the extraction fails: a \<open>.doc\<close> with the error that
  asks to convert to \<open>.docx\<close>, and a \<open>.ppt\<close> whose failure says neither
  \<open>Package not found\<close> nor \<open>not a zip file\<close> with the error that asks to convert to
  \<open>.pptx\<close>.
\<close>

theorem legacy_extension_is_parsed_first:
  "(lower file_extension = ''.doc'' \<and> read_docx dsk file_path = Inr r \<longrightarrow>
      extract_text_from_file dsk file_path file_extension = Inr r)
   \<and> (lower file_extension = ''.doc'' \<and> read_docx dsk file_path = Inl e \<longrightarrow>
      extract_text_from_file dsk file_path file_extension =
        Inl (''Error reading Word document. For .doc files, please convert to .docx format. Error: '' @ e))
   \<and> (lower file_extension = ''.ppt'' \<and> read_presentation dsk file_path = Inr r \<longrightarrow>
      extract_text_from_file dsk file_path file_extension = Inr r)
   \<and> (lower file_extension = ''.ppt'' \<and> read_presentation dsk file_path = Inl e \<longrightarrow>
      isl (extract_text_from_file dsk file_path file_extension))
   \<and> (lower file_extension = ''.ppt'' \<and> read_presentation dsk file_path = Inl e
        \<and> \<not> sublist ''Package not found'' e \<and> \<not> sublist ''not a zip file'' (lower e) \<longrightarrow>
      extract_text_from_file dsk file_path file_extension =
        Inl (''Error reading PowerPoint file. Legacy .ppt format is not fully supported. Please convert to .pptx format. Error: '' @ e))"
proof (intro conjI impI)
  assume "lower file_extension = ''.doc'' \<and> read_docx dsk file_path = Inr r"
  then show "extract_text_from_file dsk file_path file_extension = Inr r"
    by (simp add: extract_doc)
next
  assume "lower file_extension = ''.doc'' \<and> read_docx dsk file_path = Inl e"
  then show "extract_text_from_file dsk file_path file_extension =
        Inl (''Error reading Word document. For .doc files, please convert to .docx format. Error: '' @ e)"
    by (simp add: extract_doc)
next
  assume "lower file_extension = ''.ppt'' \<and> read_presentation dsk file_path = Inr r"
  then show "extract_text_from_file dsk file_path file_extension = Inr r"
    by (simp add: extract_ppt)
next
  assume "lower file_extension = ''.ppt'' \<and> read_presentation dsk file_path = Inl e"
  then show "isl (extract_text_from_file dsk file_path file_extension)"
    by (simp add: extract_ppt)
next
  assume "lower file_extension = ''.ppt'' \<and> read_presentation dsk file_path = Inl e
        \<and> \<not> sublist ''Package not found'' e \<and> \<not> sublist ''not a zip file'' (lower e)"
  then show "extract_text_from_file dsk file_path file_extension =
        Inl (''Error reading PowerPoint file. Legacy .ppt format is not fully supported. Please convert to .pptx format. Error: '' @ e)"
    by (simp add: extract_ppt)
qed

text \<open>
  The theorem at a Word document and a presentation in the modern format staged under a
  legacy extension, at a file the Word parser does not accept, and at a \<open>.ppt\<close> of size zero.
\<close>

theorem legacy_extension_is_parsed_first_witness:
  "extract_text_from_file [''/tmp/tmpab12.doc'' \<mapsto> hello_docx] ''/tmp/tmpab12.doc'' ''.doc''
     = Inr (''Hello'' @ nl @ ''world'', 3)
   \<and> extract_text_from_file [''/tmp/tmpab12.DOC'' \<mapsto> blank_txt] ''/tmp/tmpab12.DOC'' ''.DOC''
     = Inl ''Error reading Word document. For .doc files, please convert to .docx format. Error: File is not a zip file''
   \<and> extract_text_from_file [''/tmp/tmpab12.ppt'' \<mapsto> deck_pptx] ''/tmp/tmpab12.ppt'' ''.ppt''
     = Inr (''Roadmap'' @ nl @ ''Q1'' @ nl @ ''Q2'', 1)
   \<and> isl (extract_text_from_file [''/tmp/tmpab12.ppt'' \<mapsto> empty_ppt] ''/tmp/tmpab12.ppt'' ''.ppt'')
   \<and> extract_text_from_file [''/tmp/tmpab12.ppt'' \<mapsto> empty_ppt] ''/tmp/tmpab12.ppt'' ''.ppt''
     = Inl ''Error reading PowerPoint file. Legacy .ppt format is not fully supported. Please convert to .pptx format. Error: PowerPoint file is empty or corrupted''"
proof -
  have l1: "lower ''.doc'' = ''.doc''" and l2: "lower ''.DOC'' = ''.doc''" and l3: "lower ''.ppt'' = ''.ppt''"
    by (simp_all add: lower_def py_lower_char_def char_of_def bit_Suc_0_iff)
  have d1: "read_docx [''/tmp/tmpab12.doc'' \<mapsto> hello_docx] ''/tmp/tmpab12.doc''
              = Inr (''Hello'' @ nl @ ''world'', 3)"
    by (simp add: read_docx_def hello_docx_def strip_def py_isspace_def)
  have d2: "read_docx [''/tmp/tmpab12.DOC'' \<mapsto> blank_txt] ''/tmp/tmpab12.DOC''
              = Inl ''File is not a zip file''"
    by (simp add: read_docx_def blank_txt_def)
  have p1: "read_presentation [''/tmp/tmpab12.ppt'' \<mapsto> deck_pptx] ''/tmp/tmpab12.ppt''
              = Inr (''Roadmap'' @ nl @ ''Q1'' @ nl @ ''Q2'', 1)"
    by (simp add: read_presentation_def deck_pptx_def shape_runs_def strip_def py_isspace_def Let_def)
  have p2: "read_presentation [''/tmp/tmpab12.ppt'' \<mapsto> empty_ppt] ''/tmp/tmpab12.ppt''
              = Inl ''PowerPoint file is empty or corrupted''"
    by (simp add: read_presentation_def empty_ppt_def)
  have p2n: "\<not> sublist ''Package not found'' ''PowerPoint file is empty or corrupted''"
    "\<not> sublist ''not a zip file'' (lower ''PowerPoint file is empty or corrupted'')"
    by (simp_all add: lower_def py_lower_char_def sublist_Cons_right)
  show ?thesis
    using legacy_extension_is_parsed_first[of "''.doc''" "[''/tmp/tmpab12.doc'' \<mapsto> hello_docx]"
        "''/tmp/tmpab12.doc''" "(''Hello'' @ nl @ ''world'', 3)" "[]"]
      legacy_extension_is_parsed_first[of "''.DOC''" "[''/tmp/tmpab12.DOC'' \<mapsto> blank_txt]"
        "''/tmp/tmpab12.DOC''" "([], 0)" "''File is not a zip file''"]
      legacy_extension_is_parsed_first[of "''.ppt''" "[''/tmp/tmpab12.ppt'' \<mapsto> deck_pptx]"
        "''/tmp/tmpab12.ppt''" "(''Roadmap'' @ nl @ ''Q1'' @ nl @ ''Q2'', 1)" "[]"]
      legacy_extension_is_parsed_first[of "''.ppt''" "[''/tmp/tmpab12.ppt'' \<mapsto> empty_ppt]"
        "''/tmp/tmpab12.ppt''" "([], 0)" "''PowerPoint file is empty or corrupted''"]
      l1 l2 l3 d1 d2 p1 p2 p2n
    by simp
qed

text \<open>
  C8 as stated fails: a document in the modern format staged as \<open>.doc\<close> or \<open>.ppt\<close> is
  parsed and its text returned.
\<close>

theorem legacy_doc_is_extracted_counterexample:
  "extract_text_from_file [''/tmp/tmpab12.doc'' \<mapsto> hello_docx] ''/tmp/tmpab12.doc'' ''.doc''
     = Inr (''Hello'' @ nl @ ''world'', 3)
   \<and> extract_text_from_file [''/tmp/tmpab12.ppt'' \<mapsto> deck_pptx] ''/tmp/tmpab12.ppt'' ''.ppt''
     = Inr (''Roadmap'' @ nl @ ''Q1'' @ nl @ ''Q2'', 1)"
  by (simp add: extract_text_from_file_def read_docx_def read_presentation_def hello_docx_def
      deck_pptx_def shape_runs_def strip_def py_isspace_def lower_def py_lower_char_def Let_def)


section \<open>The staged file\<close>

text \<open>
  The flow removes the staged file on every path but one: when the extraction gives only
  whitespace, it shows a message and returns.
\<close>

lemma os_unlink_removes: "snd (os_unlink p d) p = None"
  by (simp add: os_unlink_def split: option.splits)

lemma ingest_staged_Inr:
  assumes "ingest_staged qdrant m randint temp_path file_extension s g dsk0 = (Inr u, s1, g1, dsk1, tr)"
  shows "(\<exists>t n. extract_text_from_file dsk0 temp_path file_extension = Inr (t, n) \<and> strip t = [])
         \<or> dsk1 temp_path = None"
proof (cases "extract_text_from_file dsk0 temp_path file_extension")
  case (Inl e)
  with assms show ?thesis by (simp add: ingest_staged_def)
next
  case (Inr r)
  obtain t n where r: "r = (t, n)" by (cases r)
  show ?thesis
  proof (cases "strip t = []")
    case True
    with Inr r show ?thesis by simp
  next
    case False
    from assms Inr r False have "dsk1 = snd (os_unlink temp_path dsk0)"
      by (auto simp: ingest_staged_def split: option.splits prod.splits sum.splits)
    then show ?thesis by (simp add: os_unlink_removes)
  qed
qed

lemma upload_and_ingest_removes_staged_file:
  assumes "tmp_stem \<noteq> []"
    and "\<And>t n. extract_text_from_file (dsk(tmp_stem @ splitext_ext name \<mapsto> body))
                 (tmp_stem @ splitext_ext name) (splitext_ext name) = Inr (t, n) \<Longrightarrow> strip t \<noteq> []"
  shows "fst (snd (snd (upload_and_ingest qdrant m randint tmp_stem name body s g dsk)))
           (tmp_stem @ splitext_ext name) = None"
proof -
  let ?p = "tmp_stem @ splitext_ext name"
  let ?d0 = "dsk(?p \<mapsto> body)"
  obtain r s1 g1 dsk1 tr
    where i: "ingest_staged qdrant m randint ?p (splitext_ext name) s g ?d0 = (r, s1, g1, dsk1, tr)"
    by (cases "ingest_staged qdrant m randint ?p (splitext_ext name) s g ?d0") auto
  show ?thesis
  proof (cases r)
    case (Inr u)
    with i ingest_staged_Inr[of qdrant m randint ?p "splitext_ext name" s g ?d0 u s1 g1 dsk1 tr] assms(2)
    have "dsk1 ?p = None" by blast
    with i Inr show ?thesis by (simp add: upload_and_ingest_def Let_def)
  next
    case (Inl e)
    have "snd (os_unlink ?p dsk1) ?p = None" by (rule os_unlink_removes)
    with i Inl assms(1) show ?thesis
      by (auto simp: upload_and_ingest_def Let_def split: prod.splits sum.splits)
  qed
qed

text \<open>
  C9 at the failing input. An uploaded text file of three spaces is staged, nothing is
  extracted from it, and the staged file is still on the disk when the flow returns. (A
  \<open>.ppt\<close> of size zero, whose extraction raises, is removed by the handler.)
\<close>

theorem blank_upload_leaves_staged_file:
  "upload_and_ingest (Some sim_client) sim_models lcg ''/tmp/tmpab12'' ''blank.txt''
       blank_txt empty_store 42 Map.empty
     = (empty_store, 42, [''/tmp/tmpab12.txt'' \<mapsto> blank_txt],
        [St_error ''No text could be extracted from the Text File.''])
   \<and> upload_and_ingest (Some sim_client) sim_models lcg ''/tmp/tmpab12'' ''slides.ppt''
       empty_ppt empty_store 42 Map.empty
     = (empty_store, 42, Map.empty,
        [St_error ''Error processing document: Error reading PowerPoint file. Legacy .ppt format is not fully supported. Please convert to .pptx format. Error: PowerPoint file is empty or corrupted'',
         Unlink ''/tmp/tmpab12.ppt''])"
  by (simp add: upload_and_ingest_def ingest_staged_def extract_text_from_file_def splitext_ext_def
      blank_txt_def empty_ppt_def read_presentation_def lower_def py_lower_char_def strip_def
      py_isspace_def file_type_name_def os_unlink_def Let_def sublist_Cons_right)

text \<open>
  The success path, for comparison: a Word document in the modern format uploaded as
  \<open>hello.doc\<close> is ingested as one point, and the staged file is removed.
\<close>

lemma upload_of_document_removes_staged_file:
  "upload_and_ingest (Some sim_client) sim_models lcg ''/tmp/tmpab12'' ''hello.doc''
       hello_docx empty_store 42 Map.empty
     = (\<lparr>collection = Some 1,
          stored = [\<lparr>pid = 250496027, vector = [11], payload_text = ''Hello'' @ nl @ ''world''\<rparr>],
          faults = []\<rparr>,
        1250496027, Map.empty,
        [Upsert, Unlink ''/tmp/tmpab12.doc'',
         St_success (check_mark @ '' Word Document (Legacy) successfully ingested!'')])"
  by (simp add: upload_and_ingest_def ingest_staged_def extract_text_from_file_def splitext_ext_def
      hello_docx_def read_docx_def lower_def py_lower_char_def strip_def py_isspace_def
      file_type_name_def os_unlink_def Let_def sublist_Cons_right upload_chunks_def
      upload_chunk_loop.simps py_slice_def nl_def sim_models_def sim_client_def sim_call_def
      empty_store_def lcg_def ensure_collection_exists_def is_timeout_def not_found_msg_def
      create_failed_def upsert_with_retry_def upt_0_3 check_mark_def)

end
